theory Spec2Isabelle
  imports Complex_Main
begin

section \<open>JavaScript values used by routes/ethernetRoutes.js\<close>

text \<open>
  A JavaScript string is represented by its UTF-8 encoding, one \<open>char\<close> per byte, so
  that \<open>Buffer.byteLength(s, 'utf8')\<close> is \<open>length s\<close>. A finite JavaScript number is
  represented by the rational it stands for: overflow to \<open>Infinity\<close> is modelled
  (\<open>to_double\<close>), rounding of the mantissa to 53 bits is not, and \<open>-0\<close> is \<open>0\<close>.
\<close>

datatype jsnum = Fin rat | PInf | NInf | NaN

text \<open>
  The values a JSON request body can hold, and \<open>undefined\<close> for an absent field. \<open>JObj\<close> is
  an object that is no array, taken with the \<open>toString\<close> of \<open>Object.prototype\<close>; an object
  with an own \<open>toString\<close> field is left out.
\<close>

datatype jsval =
    JUndefined
  | JNull
  | JBool bool
  | JNum jsnum
  | JStr string
  | JArr "jsval list"
  | JObj

type_synonym body = "string \<Rightarrow> jsval"

text \<open>Truthiness, and \<open>a || b\<close>.\<close>

fun truthy :: "jsval \<Rightarrow> bool" where
  "truthy JUndefined = False"
| "truthy JNull = False"
| "truthy (JBool b) = b"
| "truthy (JNum (Fin v)) = (v \<noteq> 0)"
| "truthy (JNum NaN) = False"
| "truthy (JNum PInf) = True"
| "truthy (JNum NInf) = True"
| "truthy (JStr s) = (s \<noteq> [])"
| "truthy (JArr xs) = True"
| "truthy JObj = True"

definition js_or :: "jsval \<Rightarrow> jsval \<Rightarrow> jsval" where
  "js_or a b = (if truthy a then a else b)"

text \<open>\<open>Number.isFinite(x)\<close>: true only for a value of type number that is finite.\<close>

fun Number_isFinite :: "jsval \<Rightarrow> bool" where
  "Number_isFinite (JNum (Fin v)) = True"
| "Number_isFinite x = False"

text \<open>\<open>Math.max(a, b)\<close> on two numbers: \<open>NaN\<close> if either is \<open>NaN\<close>.\<close>

fun Math_max :: "jsnum \<Rightarrow> jsnum \<Rightarrow> jsnum" where
  "Math_max NaN b = NaN"
| "Math_max a NaN = NaN"
| "Math_max PInf b = PInf"
| "Math_max a PInf = PInf"
| "Math_max NInf b = b"
| "Math_max a NInf = a"
| "Math_max (Fin x) (Fin y) = Fin (max x y)"

text \<open>\<open>a < b\<close> on two numbers: false as soon as one is \<open>NaN\<close>.\<close>

fun js_lt :: "jsnum \<Rightarrow> jsnum \<Rightarrow> bool" where
  "js_lt NaN b = False"
| "js_lt a NaN = False"
| "js_lt PInf b = False"
| "js_lt NInf NInf = False"
| "js_lt NInf b = True"
| "js_lt (Fin x) PInf = True"
| "js_lt (Fin x) NInf = False"
| "js_lt (Fin x) (Fin y) = (x < y)"

text \<open>
  The largest magnitude that still rounds to a finite double is just below
  \<open>2^1024 - 2^970\<close>; from there on the result is an infinity.
\<close>

definition to_double :: "rat \<Rightarrow> jsnum" where
  "to_double v =
     (if 2 ^ 1024 - 2 ^ 970 \<le> v then PInf
      else if v \<le> - (2 ^ 1024 - 2 ^ 970) then NInf
      else Fin v)"

fun js_add :: "jsnum \<Rightarrow> jsnum \<Rightarrow> jsnum" where
  "js_add NaN b = NaN"
| "js_add a NaN = NaN"
| "js_add PInf NInf = NaN"
| "js_add NInf PInf = NaN"
| "js_add PInf b = PInf"
| "js_add a PInf = PInf"
| "js_add NInf b = NInf"
| "js_add a NInf = NInf"
| "js_add (Fin x) (Fin y) = to_double (x + y)"

text \<open>Multiplication by a positive finite constant (\<open>durationSec * 1000\<close>).\<close>

fun js_scale :: "jsnum \<Rightarrow> rat \<Rightarrow> jsnum" where
  "js_scale (Fin x) k = to_double (x * k)"
| "js_scale a k = a"

subsection \<open>White space and \<open>String.prototype.trim\<close>\<close>

definition LF :: char where
  "LF = CHR 0x0A"

text \<open>TAB, LF, VT, FF, CR and SPACE.\<close>

definition ws1 :: "char \<Rightarrow> bool" where
  "ws1 c = (of_char c \<in> {9, 10, 11, 12, 13, 32 :: nat})"

text \<open>U+00A0 in UTF-8.\<close>

definition ws2 :: "char \<Rightarrow> char \<Rightarrow> bool" where
  "ws2 a b = (of_char a = (0xC2 :: nat) \<and> of_char b = (0xA0 :: nat))"

text \<open>
  U+1680, U+2000 to U+200A, U+2028, U+2029, U+202F, U+205F, U+3000 and U+FEFF in UTF-8.
\<close>

definition ws3 :: "char \<Rightarrow> char \<Rightarrow> char \<Rightarrow> bool" where
  "ws3 a b c =
     (let x = of_char a :: nat; y = of_char b :: nat; z = of_char c :: nat in
        (x = 0xE1 \<and> y = 0x9A \<and> z = 0x80) \<or>
        (x = 0xE2 \<and> y = 0x80 \<and>
           ((0x80 \<le> z \<and> z \<le> 0x8A) \<or> z = 0xA8 \<or> z = 0xA9 \<or> z = 0xAF)) \<or>
        (x = 0xE2 \<and> y = 0x81 \<and> z = 0x9F) \<or>
        (x = 0xE3 \<and> y = 0x80 \<and> z = 0x80) \<or>
        (x = 0xEF \<and> y = 0xBB \<and> z = 0xBF))"

fun trimStart :: "string \<Rightarrow> string" where
  "trimStart (a # b # c # s) =
     (if ws1 a then trimStart (b # c # s)
      else if ws2 a b then trimStart (c # s)
      else if ws3 a b c then trimStart s
      else a # b # c # s)"
| "trimStart [a, b] =
     (if ws1 a then trimStart [b] else if ws2 a b then [] else [a, b])"
| "trimStart [a] = (if ws1 a then [] else [a])"
| "trimStart [] = []"

text \<open>The same scan from the end, on the reversed text.\<close>

fun trimStart_rev :: "string \<Rightarrow> string" where
  "trimStart_rev (c # b # a # s) =
     (if ws1 c then trimStart_rev (b # a # s)
      else if ws2 b c then trimStart_rev (a # s)
      else if ws3 a b c then trimStart_rev s
      else c # b # a # s)"
| "trimStart_rev [b, a] =
     (if ws1 b then trimStart_rev [a] else if ws2 a b then [] else [b, a])"
| "trimStart_rev [a] = (if ws1 a then [] else [a])"
| "trimStart_rev [] = []"

definition trimEnd :: "string \<Rightarrow> string" where
  "trimEnd s = rev (trimStart_rev (rev s))"

definition trim :: "string \<Rightarrow> string" where
  "trim s = trimEnd (trimStart s)"

subsection \<open>\<open>Number(string)\<close> and \<open>parseInt(string, 10)\<close>\<close>

definition is_digit :: "char \<Rightarrow> bool" where
  "is_digit c = (48 \<le> (of_char c :: nat) \<and> (of_char c :: nat) \<le> 57)"

definition digit_val :: "char \<Rightarrow> nat" where
  "digit_val c = of_char c - 48"

definition digits_val :: "string \<Rightarrow> nat" where
  "digits_val ds = foldl (\<lambda>a c. 10 * a + digit_val c) 0 ds"

text \<open>The digit of a character in radix 16, 8 or 2, when it is one.\<close>

definition radix_digit :: "nat \<Rightarrow> char \<Rightarrow> nat option" where
  "radix_digit r c =
     (let n = of_char c :: nat;
          d = (if 48 \<le> n \<and> n \<le> 57 then Some (n - 48)
               else if 97 \<le> n \<and> n \<le> 102 then Some (n - 87)
               else if 65 \<le> n \<and> n \<le> 70 then Some (n - 55)
               else None)
      in case d of None \<Rightarrow> None | Some k \<Rightarrow> if k < r then Some k else None)"

fun radix_val :: "nat \<Rightarrow> nat \<Rightarrow> string \<Rightarrow> nat option" where
  "radix_val r acc [] = Some acc"
| "radix_val r acc (c # cs) =
     (case radix_digit r c of None \<Rightarrow> None | Some k \<Rightarrow> radix_val r (r * acc + k) cs)"

text \<open>\<open>NonDecimalIntegerLiteral\<close>: \<open>0x\<close>, \<open>0o\<close> or \<open>0b\<close> (either case) and at least one digit.\<close>

definition NonDecimalIntegerLiteral :: "string \<Rightarrow> nat option" where
  "NonDecimalIntegerLiteral s =
     (case s of
        z # p # ds \<Rightarrow>
          (if z = CHR ''0'' \<and> ds \<noteq> [] then
             (if p = CHR ''x'' \<or> p = CHR ''X'' then radix_val 16 0 ds
              else if p = CHR ''o'' \<or> p = CHR ''O'' then radix_val 8 0 ds
              else if p = CHR ''b'' \<or> p = CHR ''B'' then radix_val 2 0 ds
              else None)
           else None)
      | _ \<Rightarrow> None)"

text \<open>\<open>SignedInteger\<close> of an exponent part: an optional sign and at least one digit.\<close>

definition SignedInteger :: "string \<Rightarrow> int option" where
  "SignedInteger s =
     (let (neg, ds) =
            (case s of
               c # t \<Rightarrow> if c = CHR ''-'' then (True, t)
                        else if c = CHR ''+'' then (False, t) else (False, s)
             | [] \<Rightarrow> (False, s))
      in if ds \<noteq> [] \<and> list_all is_digit ds
         then Some (if neg then - int (digits_val ds) else int (digits_val ds))
         else None)"

definition ExponentPart_opt :: "string \<Rightarrow> int option" where
  "ExponentPart_opt s =
     (case s of
        [] \<Rightarrow> Some 0
      | c # t \<Rightarrow> if c = CHR ''e'' \<or> c = CHR ''E'' then SignedInteger t else None)"

text \<open>
  \<open>StrUnsignedDecimalLiteral\<close> without \<open>Infinity\<close>: digits, an optional fraction, an
  optional exponent, with a digit before or after the point.
\<close>

definition StrUnsignedDecimalLiteral :: "string \<Rightarrow> rat option" where
  "StrUnsignedDecimalLiteral s =
     (let ip = takeWhile is_digit s;
          r1 = dropWhile is_digit s;
          (fp, r2) =
            (case r1 of
               c # t \<Rightarrow> if c = CHR ''.'' then (takeWhile is_digit t, dropWhile is_digit t)
                        else ([], r1)
             | [] \<Rightarrow> ([], r1))
      in if ip = [] \<and> fp = [] then None
         else case ExponentPart_opt r2 of
                None \<Rightarrow> None
              | Some e \<Rightarrow>
                  (let m = of_nat (digits_val (ip @ fp)) :: rat;
                       k = e - int (length fp)
                   in Some (if 0 \<le> k then m * 10 ^ nat k else m / 10 ^ nat (- k))))"

definition StrDecimalLiteral :: "string \<Rightarrow> jsnum" where
  "StrDecimalLiteral s =
     (let (neg, u) =
            (case s of
               c # t \<Rightarrow> if c = CHR ''-'' then (True, t)
                        else if c = CHR ''+'' then (False, t) else (False, s)
             | [] \<Rightarrow> (False, s))
      in if u = ''Infinity'' then (if neg then NInf else PInf)
         else case StrUnsignedDecimalLiteral u of
                None \<Rightarrow> NaN
              | Some v \<Rightarrow> to_double (if neg then - v else v))"

text \<open>\<open>Number(s)\<close> for a string: white space is stripped, the empty text is 0.\<close>

definition StringToNumber :: "string \<Rightarrow> jsnum" where
  "StringToNumber s =
     (let t = trim s in
      if t = [] then Fin 0
      else case NonDecimalIntegerLiteral t of
             Some n \<Rightarrow> to_double (of_nat n)
           | None \<Rightarrow> StrDecimalLiteral t)"

text \<open>
  \<open>parseInt(s, 10)\<close> for a string: leading white space and a sign are skipped, the
  longest prefix of decimal digits is read, and no digit at all gives \<open>NaN\<close>.
\<close>

definition parseInt10 :: "string \<Rightarrow> jsnum" where
  "parseInt10 s =
     (let t = trimStart s;
          (neg, u) =
            (case t of
               c # r \<Rightarrow> if c = CHR ''-'' then (True, r)
                        else if c = CHR ''+'' then (False, r) else (False, t)
             | [] \<Rightarrow> (False, t));
          z = takeWhile is_digit u
      in if z = [] then NaN
         else to_double (if neg then - of_nat (digits_val z) else of_nat (digits_val z)))"

subsection \<open>\<open>ToString\<close> and \<open>ToNumber\<close>\<close>

text \<open>
  \<open>Number.prototype.toString\<close> on a finite number is the runtime's shortest
  round-trip printer; it is a parameter \<open>ns\<close> of everything that prints a number.
\<close>

fun join_comma :: "string list \<Rightarrow> string" where
  "join_comma [] = []"
| "join_comma [x] = x"
| "join_comma (x # y # ys) = x @ '','' @ join_comma (y # ys)"

fun ToString :: "(rat \<Rightarrow> string) \<Rightarrow> jsval \<Rightarrow> string" where
  "ToString ns JUndefined = ''undefined''"
| "ToString ns JNull = ''null''"
| "ToString ns (JBool b) = (if b then ''true'' else ''false'')"
| "ToString ns (JNum (Fin v)) = ns v"
| "ToString ns (JNum PInf) = ''Infinity''"
| "ToString ns (JNum NInf) = ''-Infinity''"
| "ToString ns (JNum NaN) = ''NaN''"
| "ToString ns (JStr s) = s"
| "ToString ns (JArr xs) =
     join_comma (map (\<lambda>x. case x of JUndefined \<Rightarrow> [] | JNull \<Rightarrow> [] | _ \<Rightarrow> ToString ns x) xs)"
| "ToString ns JObj = ''[object Object]''"

fun ToNumber :: "(rat \<Rightarrow> string) \<Rightarrow> jsval \<Rightarrow> jsnum" where
  "ToNumber ns JUndefined = NaN"
| "ToNumber ns JNull = Fin 0"
| "ToNumber ns (JBool b) = (if b then Fin 1 else Fin 0)"
| "ToNumber ns (JNum n) = n"
| "ToNumber ns v = StringToNumber (ToString ns v)"

section \<open>The command correlator: \<open>sendCommandOnceOnSocket\<close>\<close>

text \<open>
  The value a call resolves with. The source builds objects of three shapes; a key that
  is absent there (\<open>timeout\<close>, \<open>error\<close>) is \<open>False\<close>, respectively \<open>None\<close>, here, and
  \<open>rtt_ms: null\<close> is \<open>None\<close>.
\<close>

record cmd_result =
  raw :: string
  rtt_ms :: "int option"
  bytes :: nat
  timeout :: bool
  error :: "string option"

text \<open>
  What the runtime can deliver to one call, in the order it does: a decoded chunk, a
  socket error, a socket close, the completion of the write (with its error, if any),
  and the expiry of the per-command timer. Every event but the last carries the value
  \<open>Date.now()\<close> has when its handler runs.
\<close>

datatype event =
    Data string int
  | SockError string int
  | SockClose int
  | WriteDone "string option" int
  | TimerFire

text \<open>
  The variables of one call: \<open>start\<close>, \<open>buffer\<close>, \<open>finished\<close>, the three listeners the
  call has on the socket, whether its timer is pending, what it wrote, and the calls
  of \<open>resolve\<close> made so far.
\<close>

record call =
  t0 :: int
  buffer :: string
  finished :: bool
  on_data :: bool
  on_error :: bool
  on_close :: bool
  timer :: bool
  written :: "string list"
  resolved :: "cmd_result list"

definition cleanup :: "call \<Rightarrow> call" where
  "cleanup c = c\<lparr>on_data := False, on_error := False, on_close := False, timer := False\<rparr>"

definition resolve :: "call \<Rightarrow> cmd_result \<Rightarrow> call" where
  "resolve c r = c\<lparr>resolved := resolved c @ [r]\<rparr>"

definition onData :: "call \<Rightarrow> string \<Rightarrow> int \<Rightarrow> call" where
  "onData c chunk now =
     (let c1 = c\<lparr>buffer := buffer c @ chunk\<rparr> in
      if LF \<in> set (buffer c1) then
        (let c2 = cleanup (c1\<lparr>finished := True\<rparr>) in
         resolve c2
           \<lparr>raw = trim (buffer c2), rtt_ms = Some (now - t0 c2),
            bytes = length (buffer c2), timeout = False, error = None\<rparr>)
      else c1)"

definition onError :: "call \<Rightarrow> string \<Rightarrow> int \<Rightarrow> call" where
  "onError c msg now =
     (if finished c then c
      else
        (let c2 = cleanup (c\<lparr>finished := True\<rparr>) in
         resolve c2
           \<lparr>raw = trim (buffer c2), rtt_ms = Some (now - t0 c2),
            bytes = length (buffer c2), timeout = False, error = Some msg\<rparr>))"

definition onClose :: "call \<Rightarrow> int \<Rightarrow> call" where
  "onClose c now =
     (if finished c then c
      else
        (let c2 = cleanup (c\<lparr>finished := True\<rparr>) in
         resolve c2
           \<lparr>raw = trim (buffer c2), rtt_ms = Some (now - t0 c2),
            bytes = length (buffer c2), timeout = False, error = Some ''socket closed''\<rparr>))"

text \<open>The callback given to \<open>socket.write\<close>.\<close>

definition onWritten :: "call \<Rightarrow> string option \<Rightarrow> int \<Rightarrow> call" where
  "onWritten c err now =
     (case err of
        None \<Rightarrow> c
      | Some msg \<Rightarrow>
          (if \<not> finished c then
             (let c2 = cleanup (c\<lparr>finished := True\<rparr>) in
              resolve c2
                \<lparr>raw = trim (buffer c2), rtt_ms = Some (now - t0 c2),
                 bytes = length (buffer c2), timeout = False, error = Some msg\<rparr>)
           else c))"

definition onTimer :: "call \<Rightarrow> call" where
  "onTimer c =
     (if finished c then c
      else
        (let c2 = cleanup (c\<lparr>finished := True\<rparr>) in
         resolve c2
           \<lparr>raw = trim (buffer c2), rtt_ms = None,
            bytes = length (buffer c2), timeout = True, error = None\<rparr>))"

text \<open>
  The runtime calls a handler only while it is registered: \<open>on('data')\<close> until it is
  removed, \<open>once('error')\<close> and \<open>once('close')\<close> at most once, the timer while it is
  pending. The write callback is not a listener and is always called.
\<close>

fun deliver :: "call \<Rightarrow> event \<Rightarrow> call" where
  "deliver c (Data chunk now) = (if on_data c then onData c chunk now else c)"
| "deliver c (SockError msg now) =
     (if on_error c then onError (c\<lparr>on_error := False\<rparr>) msg now else c)"
| "deliver c (SockClose now) =
     (if on_close c then onClose (c\<lparr>on_close := False\<rparr>) now else c)"
| "deliver c (WriteDone err now) = onWritten c err now"
| "deliver c TimerFire = (if timer c then onTimer (c\<lparr>timer := False\<rparr>) else c)"

definition run :: "call \<Rightarrow> event list \<Rightarrow> call" where
  "run c evs = foldl deliver c evs"

text \<open>
  The environment of one call: the clock at its start, whether \<open>socket.write\<close> throws
  at once (and with which message), and the events delivered before the timer expires.
\<close>

record call_env =
  start :: int
  write_throws :: "string option"
  events :: "event list"

definition quote :: string where
  "quote = [CHR 0x27]"

definition timer_tdz_message :: string where
  "timer_tdz_message = ''Cannot access '' @ quote @ ''timer'' @ quote @ '' before initialization''"

text \<open>
  The body of the promise up to its end: the listeners are registered, the command is
  framed and written, the timer is started. When \<open>socket.write\<close> throws, the \<open>catch\<close>
  block sets \<open>finished\<close> and calls \<open>cleanup\<close>, which removes the listeners and then reads
  \<open>timer\<close> before its \<open>const\<close> declaration has run: that read throws, \<open>resolve\<close> is not
  reached, and the promise is rejected (\<open>Inl\<close>).
\<close>

definition executor :: "call_env \<Rightarrow> string \<Rightarrow> string + call" where
  "executor env command =
     (let c0 = \<lparr>t0 = start env, buffer = [], finished = False, on_data = True,
                on_error = True, on_close = True, timer = False, written = [],
                resolved = []\<rparr>;
          cmd = (if command \<noteq> [] \<and> last command = LF then command else command @ [LF])
      in case write_throws env of
           Some e \<Rightarrow> Inl timer_tdz_message
         | None \<Rightarrow> Inr (c0\<lparr>written := [cmd], timer := True\<rparr>))"

datatype outcome = Resolved cmd_result | Rejected string | Pending

text \<open>The message of the \<open>TypeError\<close> thrown by \<open>command.endsWith\<close> on a value that is no string.\<close>

definition no_endsWith_message :: "jsval \<Rightarrow> string" where
  "no_endsWith_message v =
     (case v of
        JNull \<Rightarrow>
          ''Cannot read properties of null (reading '' @ quote @ ''endsWith'' @ quote @ '')''
      | JUndefined \<Rightarrow>
          ''Cannot read properties of undefined (reading '' @ quote @ ''endsWith'' @ quote @ '')''
      | _ \<Rightarrow> ''command.endsWith is not a function'')"

text \<open>
  What \<open>await sendCommandOnceOnSocket(socket, command, perCmdTimeoutMs)\<close> gives: the
  first value passed to \<open>resolve\<close> once the events of the environment and then the timer
  have been delivered. \<open>perCmdTimeoutMs\<close> only decides which events come before the
  timer, which the environment states. A command that is not a string has no
  \<open>endsWith\<close>: the body throws and the promise is rejected. Each call is modelled on its
  own: the listeners that such a rejected call leaves on the socket are not carried
  over to the calls that follow.
\<close>

definition sendCommandOnceOnSocket :: "call_env \<Rightarrow> jsval \<Rightarrow> outcome" where
  "sendCommandOnceOnSocket env command =
     (case command of
        JStr s \<Rightarrow>
          (case executor env s of
             Inl m \<Rightarrow> Rejected m
           | Inr c \<Rightarrow>
               (case resolved (run c (events env @ [TimerFire])) of
                  r # rs \<Rightarrow> Resolved r
                | [] \<Rightarrow> Pending))
      | _ \<Rightarrow> Rejected (no_endsWith_message command))"

text \<open>
  The three terminal events in the words of the specification: the first line
  terminator in the accumulated text, the timer, or an error or close of the
  connection (a failed write counts as an error). \<open>first_terminal\<close> is the result of the
  first of them in a sequence of events.
\<close>

fun first_terminal :: "int \<Rightarrow> string \<Rightarrow> event list \<Rightarrow> cmd_result option" where
  "first_terminal st buf [] = None"
| "first_terminal st buf (Data chunk now # es) =
     (if LF \<in> set (buf @ chunk)
      then Some \<lparr>raw = trim (buf @ chunk), rtt_ms = Some (now - st),
                 bytes = length (buf @ chunk), timeout = False, error = None\<rparr>
      else first_terminal st (buf @ chunk) es)"
| "first_terminal st buf (SockError msg now # es) =
     Some \<lparr>raw = trim buf, rtt_ms = Some (now - st), bytes = length buf,
           timeout = False, error = Some msg\<rparr>"
| "first_terminal st buf (SockClose now # es) =
     Some \<lparr>raw = trim buf, rtt_ms = Some (now - st), bytes = length buf,
           timeout = False, error = Some ''socket closed''\<rparr>"
| "first_terminal st buf (WriteDone None now # es) = first_terminal st buf es"
| "first_terminal st buf (WriteDone (Some msg) now # es) =
     Some \<lparr>raw = trim buf, rtt_ms = Some (now - st), bytes = length buf,
           timeout = False, error = Some msg\<rparr>"
| "first_terminal st buf (TimerFire # es) =
     Some \<lparr>raw = trim buf, rtt_ms = None, bytes = length buf,
           timeout = True, error = None\<rparr>"

text \<open>All listeners of the call are off the socket and its timer is not pending.\<close>

definition deactivated :: "call \<Rightarrow> bool" where
  "deactivated c = (\<not> on_data c \<and> \<not> on_error c \<and> \<not> on_close c \<and> \<not> timer c)"

section \<open>The routes\<close>

text \<open>
  The module state: the persistent socket (\<open>null\<close> is \<open>None\<close>) and the flag \<open>tcpBusy\<close>,
  the "simple mutex to prevent concurrent command loops".
\<close>

record socket =
  destroyed :: bool

record server =
  tcpClient :: "socket option"
  tcpBusy :: bool

text \<open>\<open>!tcpClient || tcpClient.destroyed\<close>\<close>

definition not_connected :: "server \<Rightarrow> bool" where
  "not_connected srv = (case tcpClient srv of None \<Rightarrow> True | Some s \<Rightarrow> destroyed s)"

text \<open>One element of the array \<open>results\<close> of a latency run: an iteration or the abort note.\<close>

datatype entry =
    Iter nat string "int option" nat bool "string option"
  | Note string

datatype jvalue = VNum rat | VStr string

record send_reply =
  reply :: string
  reply_rtt_ms :: "int option"
  reply_bytes :: nat
  reply_timeout :: bool
  reply_error :: "string option"

record measurement =
  m_type :: string
  m_raw :: string
  m_value :: jvalue
  m_rtt_ms :: "int option"
  m_bytes :: nat

record rtt_stats =
  avg_ms :: "rat option"
  min_ms :: "int option"
  max_ms :: "int option"
  ops_per_sec :: "rat option"
  total_bytes :: nat

record rtt_report =
  rtt_command :: jsval
  countRequested :: jsnum
  rtt_minDelayMs :: rat
  stats :: rtt_stats
  results :: "entry list"

record throughput_report =
  thr_command :: jsval
  durationRequestedSec :: jsnum
  durationMeasuredSec :: rat
  thr_minDelayMs :: rat
  thr_perCmdTimeoutMs :: rat
  thr_maxConsecutiveTimeouts :: rat
  queriesSent :: nat
  thr_total_bytes :: nat
  megabytes :: rat
  mb_per_s :: rat
  thr_ops_per_sec :: rat
  thr_note :: string

text \<open>A response: a status with an error message, or one of the bodies sent with 200.\<close>

datatype response =
    Failure nat string
  | Sent jsval
  | Reply send_reply
  | Measurement measurement
  | RttReport rtt_report
  | ThroughputReport throughput_report

text \<open>
  A handler up to its first \<open>await\<close>: it answers at once, or goes on with the module
  state it leaves behind while the correlation is pending.
\<close>

datatype admission = Refused response | Admitted server

text \<open>\<open>r.error || null\<close>: an empty message is falsy.\<close>

definition error_or_null :: "string option \<Rightarrow> string option" where
  "error_or_null e = (case e of None \<Rightarrow> None | Some m \<Rightarrow> if m = [] then None else Some m)"

subsection \<open>POST /send\<close>

text \<open>A destructuring default applies to an absent field only.\<close>

definition field_default :: "body \<Rightarrow> string \<Rightarrow> jsval \<Rightarrow> jsval" where
  "field_default b k d = (case b k of JUndefined \<Rightarrow> d | v \<Rightarrow> v)"

definition send_admit :: "server \<Rightarrow> admission" where
  "send_admit srv =
     (if not_connected srv then Refused (Failure 400 ''TCP not connected'')
      else Admitted srv)"

text \<open>
  \<open>wr\<close> is the failure of \<open>writeRaw\<close> on the fire-and-forget path, if any; \<open>env\<close> is the
  environment of the correlation on the other path. \<open>None\<close> is a request that is never
  answered.
\<close>

definition send_route ::
  "server \<Rightarrow> body \<Rightarrow> string option \<Rightarrow> call_env \<Rightarrow> server \<times> response option" where
  "send_route srv b wr env =
     (case send_admit srv of
        Refused r \<Rightarrow> (srv, Some r)
      | Admitted s \<Rightarrow>
          (let data = field_default b ''data'' (JStr []);
               expectResponse = field_default b ''expectResponse'' (JBool True)
           in if \<not> truthy expectResponse then
                (case wr of
                   None \<Rightarrow> (s, Some (Sent data))
                 | Some m \<Rightarrow> (s, Some (Failure 500 m)))
              else
                (case sendCommandOnceOnSocket env data of
                   Resolved r \<Rightarrow>
                     (s, Some (Reply \<lparr>reply = raw r, reply_rtt_ms = rtt_ms r,
                                      reply_bytes = bytes r, reply_timeout = timeout r,
                                      reply_error = error_or_null (error r)\<rparr>))
                 | Rejected m \<Rightarrow> (s, Some (Failure 500 m))
                 | Pending \<Rightarrow> (s, None))))"

subsection \<open>GET /measure/volt and GET /measure/curr\<close>

definition measure_admit :: "server \<Rightarrow> admission" where
  "measure_admit srv =
     (if not_connected srv then Refused (Failure 400 ''TCP not connected'')
      else if tcpBusy srv then Refused (Failure 409 ''Device busy'')
      else Admitted (srv\<lparr>tcpBusy := True\<rparr>))"

text \<open>\<open>Number.isFinite(value) ? value : r.raw\<close> with \<open>value = Number(r.raw)\<close>\<close>

definition measured_value :: "string \<Rightarrow> jvalue" where
  "measured_value s = (case StringToNumber s of Fin v \<Rightarrow> VNum v | _ \<Rightarrow> VStr s)"

text \<open>What the handler answers once the correlation has settled with \<open>r\<close>.\<close>

definition measure_answer :: "string \<Rightarrow> cmd_result \<Rightarrow> response" where
  "measure_answer kind r =
     (if timeout r then Failure 504 ''Timeout waiting for instrument reply''
      else Measurement \<lparr>m_type = kind, m_raw = raw r, m_value = measured_value (raw r),
                        m_rtt_ms = rtt_ms r, m_bytes = bytes r\<rparr>)"

definition measure_route ::
  "string \<Rightarrow> string \<Rightarrow> server \<Rightarrow> call_env \<Rightarrow> server \<times> response option" where
  "measure_route kind command srv env =
     (case measure_admit srv of
        Refused r \<Rightarrow> (srv, Some r)
      | Admitted s \<Rightarrow>
          (case sendCommandOnceOnSocket env (JStr command) of
             Resolved r \<Rightarrow> (s\<lparr>tcpBusy := False\<rparr>, Some (measure_answer kind r))
           | Rejected m \<Rightarrow> (s\<lparr>tcpBusy := False\<rparr>, Some (Failure 500 m))
           | Pending \<Rightarrow> (s, None)))"

definition measure_volt :: "server \<Rightarrow> call_env \<Rightarrow> server \<times> response option" where
  "measure_volt = measure_route ''volt'' ''MEAS:VOLT?''"

definition measure_curr :: "server \<Rightarrow> call_env \<Rightarrow> server \<times> response option" where
  "measure_curr = measure_route ''curr'' ''MEAS:CURR?''"

subsection \<open>POST /speedtest\<close>

definition speedtest_admit :: "server \<Rightarrow> admission" where
  "speedtest_admit srv =
     (if not_connected srv then Refused (Failure 400 ''TCP not connected'')
      else if tcpBusy srv then Refused (Failure 409 ''Device busy'')
      else Admitted (srv\<lparr>tcpBusy := True\<rparr>))"

text \<open>The options guarded by \<open>Number.isFinite\<close>.\<close>

definition cfg_minDelayMs :: "body \<Rightarrow> rat" where
  "cfg_minDelayMs b = (case b ''minDelayMs'' of JNum (Fin v) \<Rightarrow> max 0 v | _ \<Rightarrow> 10)"

definition cfg_perCmdTimeoutMs :: "body \<Rightarrow> rat" where
  "cfg_perCmdTimeoutMs b = (case b ''perCmdTimeoutMs'' of JNum (Fin v) \<Rightarrow> max 100 v | _ \<Rightarrow> 3000)"

definition cfg_maxConsecutiveTimeouts :: "body \<Rightarrow> rat" where
  "cfg_maxConsecutiveTimeouts b =
     (case b ''maxConsecutiveTimeouts'' of JNum (Fin v) \<Rightarrow> max 1 v | _ \<Rightarrow> 5)"

text \<open>\<open>Math.max(1, parseInt(body.count || 10, 10))\<close>\<close>

definition cfg_count :: "(rat \<Rightarrow> string) \<Rightarrow> body \<Rightarrow> jsnum" where
  "cfg_count ns b =
     Math_max (Fin 1) (parseInt10 (ToString ns (js_or (b ''count'') (JNum (Fin 10)))))"

text \<open>\<open>Math.max(1, Number(body.duration || 5))\<close>\<close>

definition cfg_durationSec :: "(rat \<Rightarrow> string) \<Rightarrow> body \<Rightarrow> jsnum" where
  "cfg_durationSec ns b =
     Math_max (Fin 1) (ToNumber ns (js_or (b ''duration'') (JNum (Fin 5))))"

text \<open>\<open>toLowerCase\<close>, on the ASCII letters (all that a comparison with an ASCII word sees).\<close>

definition toLowerCase :: "string \<Rightarrow> string" where
  "toLowerCase s =
     map (\<lambda>c. if 65 \<le> (of_char c :: nat) \<and> (of_char c :: nat) \<le> 90
              then char_of ((of_char c :: nat) + 32) else c) s"

definition cfg_mode :: "(rat \<Rightarrow> string) \<Rightarrow> body \<Rightarrow> string" where
  "cfg_mode ns b = toLowerCase (ToString ns (js_or (b ''mode'') (JStr ''rtt'')))"

definition cfg_command :: "body \<Rightarrow> jsval" where
  "cfg_command b = js_or (b ''command'') (JStr ''MEAS:VOLT?'')"

text \<open>The decimal digits of a counter, for the template string of the note.\<close>

fun dec :: "nat \<Rightarrow> string" where
  "dec n = (if n < 10 then [char_of (48 + n)] else dec (n div 10) @ [char_of (48 + n mod 10)])"

declare dec.simps [simp del]

definition abort_note :: "nat \<Rightarrow> string" where
  "abort_note n = ''Aborted after '' @ dec n @ '' consecutive timeouts.''"

text \<open>The record pushed for iteration \<open>i\<close> (counted from 0).\<close>

definition mk_entry :: "nat \<Rightarrow> cmd_result \<Rightarrow> entry" where
  "mk_entry i r = Iter (i + 1) (raw r) (rtt_ms r) (bytes r) (timeout r) (error_or_null (error r))"

text \<open>
  The loop of the latency mode, \<open>for (let i = 0; i < count; ++i)\<close>, over the environments
  of its calls in order. The pauses between iterations change no variable. \<open>None\<close>: the
  loop asks for a call that the given environments do not hold, or a call never settles.
  \<open>Inl\<close>: a call was rejected and the exception left the loop.
\<close>

fun rtt_loop ::
  "jsval \<Rightarrow> jsnum \<Rightarrow> rat \<Rightarrow> nat \<Rightarrow> nat \<Rightarrow> entry list \<Rightarrow> call_env list
     \<Rightarrow> (string + entry list) option" where
  "rtt_loop command count maxC i consecutiveTimeouts res [] =
     (if js_lt (Fin (of_nat i)) count then None else Some (Inr res))"
| "rtt_loop command count maxC i consecutiveTimeouts res (env # envs) =
     (if js_lt (Fin (of_nat i)) count then
        (case sendCommandOnceOnSocket env command of
           Pending \<Rightarrow> None
         | Rejected m \<Rightarrow> Some (Inl m)
         | Resolved r \<Rightarrow>
             (let res1 = res @ [mk_entry i r];
                  ct = (if timeout r then consecutiveTimeouts + 1 else 0)
              in if maxC \<le> of_nat ct then Some (Inr (res1 @ [Note (abort_note ct)]))
                 else rtt_loop command count maxC (i + 1) ct res1 envs))
      else Some (Inr res))"

text \<open>\<open>!x.timeout && typeof x.rtt_ms === 'number'\<close>; the note has neither key.\<close>

fun is_success :: "entry \<Rightarrow> bool" where
  "is_success (Iter i rw rtt b t e) = (\<not> t \<and> rtt \<noteq> None)"
| "is_success (Note n) = False"

definition successes :: "entry list \<Rightarrow> entry list" where
  "successes res = filter is_success res"

text \<open>
  \<open>x.rtt_ms\<close> as an operand of \<open>+\<close>, \<open>Math.min\<close> and \<open>Math.max\<close>. It is only read on the
  elements of \<open>successes\<close>, where it is a number; \<open>null\<close> would count as 0.
\<close>

fun rtt_num :: "entry \<Rightarrow> int" where
  "rtt_num (Iter i rw (Some v) b t e) = v"
| "rtt_num x = 0"

text \<open>\<open>x.bytes || 0\<close>\<close>

fun bytes_num :: "entry \<Rightarrow> nat" where
  "bytes_num (Iter i rw rtt b t e) = b"
| "bytes_num (Note n) = 0"

fun list_min :: "int list \<Rightarrow> int option" where
  "list_min [] = None"
| "list_min (x # xs) = Some (fold min xs x)"

fun list_max :: "int list \<Rightarrow> int option" where
  "list_max [] = None"
| "list_max (x # xs) = Some (fold max xs x)"

definition rtt_statistics :: "entry list \<Rightarrow> rtt_stats" where
  "rtt_statistics res =
     (let ok = successes res;
          avg = (if ok \<noteq> []
                 then Some (of_int (sum_list (map rtt_num ok)) / of_nat (length ok))
                 else None);
          mn = list_min (map rtt_num ok);
          mx = list_max (map rtt_num ok);
          totalBytes = sum_list (map bytes_num res);
          opsPerSec = (case avg of
                         None \<Rightarrow> None
                       | Some a \<Rightarrow> if a \<noteq> 0 then Some (1000 / a) else None)
      in \<lparr>avg_ms = avg, min_ms = mn, max_ms = mx, ops_per_sec = opsPerSec,
          total_bytes = totalBytes\<rparr>)"

text \<open>
  The loop of the throughput mode, \<open>while (Date.now() < endAt)\<close>: each element of the
  trace holds the clock read by one test of the loop and the environment of the call
  made if the test passes. \<open>None\<close>: the trace ends before the loop does, or a call never
  settles. The result is \<open>(totalBytes, queries)\<close>.
\<close>

fun throughput_loop ::
  "jsval \<Rightarrow> jsnum \<Rightarrow> rat \<Rightarrow> nat \<Rightarrow> nat \<Rightarrow> nat \<Rightarrow> (int \<times> call_env) list
     \<Rightarrow> (string + nat \<times> nat) option" where
  "throughput_loop command endAt maxC totalBytes queries consecutiveTimeouts [] = None"
| "throughput_loop command endAt maxC totalBytes queries consecutiveTimeouts ((now, env) # tr) =
     (if js_lt (Fin (of_int now)) endAt then
        (case sendCommandOnceOnSocket env command of
           Pending \<Rightarrow> None
         | Rejected m \<Rightarrow> Some (Inl m)
         | Resolved r \<Rightarrow>
             (let ct = (if timeout r then consecutiveTimeouts + 1 else 0);
                  tb = totalBytes + bytes r;
                  q = queries + 1
              in if maxC \<le> of_nat ct then Some (Inr (tb, q))
                 else throughput_loop command endAt maxC tb q ct tr))
      else Some (Inr (totalBytes, queries)))"

text \<open>
  The environment of one speed test: the calls of a latency run; for a throughput run
  the clock at its start, the trace of its loop, and the clock after the grace pause.
\<close>

record st_env =
  calls :: "call_env list"
  startTime :: int
  ticks :: "(int \<times> call_env) list"
  endNow :: int

definition throughput_note :: string where
  "throughput_note =
     ''Each iteration waits for the instrument response (safe for SCPI instruments).''"

definition invalid_mode_message :: string where
  "invalid_mode_message =
     ''Invalid mode. Use '' @ [CHR 0x22] @ ''rtt'' @ [CHR 0x22] @ '' or '' @
     [CHR 0x22] @ ''throughput'' @ [CHR 0x22] @ ''.''"

definition rtt_mode :: "(rat \<Rightarrow> string) \<Rightarrow> body \<Rightarrow> call_env list \<Rightarrow> response option" where
  "rtt_mode ns b envs =
     (let count = cfg_count ns b in
      case rtt_loop (cfg_command b) count (cfg_maxConsecutiveTimeouts b) 0 0 [] envs of
        None \<Rightarrow> None
      | Some (Inl m) \<Rightarrow> Some (Failure 500 m)
      | Some (Inr res) \<Rightarrow>
          Some (RttReport \<lparr>rtt_command = cfg_command b, countRequested = count,
                           rtt_minDelayMs = cfg_minDelayMs b, stats = rtt_statistics res,
                           results = res\<rparr>))"

definition throughput_mode :: "(rat \<Rightarrow> string) \<Rightarrow> body \<Rightarrow> st_env \<Rightarrow> response option" where
  "throughput_mode ns b env =
     (let durationSec = cfg_durationSec ns b;
          endAt = js_add (Fin (of_int (startTime env))) (js_scale durationSec 1000)
      in case throughput_loop (cfg_command b) endAt (cfg_maxConsecutiveTimeouts b) 0 0 0
                (ticks env) of
           None \<Rightarrow> None
         | Some (Inl m) \<Rightarrow> Some (Failure 500 m)
         | Some (Inr (totalBytes, queries)) \<Rightarrow>
             (let elapsedMs = endNow env - startTime env;
                  seconds = max (1 / 1000) (of_int elapsedMs / 1000);
                  mb = of_nat totalBytes / (1024 * 1024)
              in Some (ThroughputReport
                   \<lparr>thr_command = cfg_command b, durationRequestedSec = durationSec,
                    durationMeasuredSec = seconds, thr_minDelayMs = cfg_minDelayMs b,
                    thr_perCmdTimeoutMs = cfg_perCmdTimeoutMs b,
                    thr_maxConsecutiveTimeouts = cfg_maxConsecutiveTimeouts b,
                    queriesSent = queries, thr_total_bytes = totalBytes, megabytes = mb,
                    mb_per_s = mb / seconds, thr_ops_per_sec = of_nat queries / seconds,
                    thr_note = throughput_note\<rparr>)))"

text \<open>The \<open>try\<close> block of the handler.\<close>

definition speedtest_try :: "(rat \<Rightarrow> string) \<Rightarrow> body \<Rightarrow> st_env \<Rightarrow> response option" where
  "speedtest_try ns b env =
     (if cfg_mode ns b = ''rtt'' then rtt_mode ns b (calls env)
      else if cfg_mode ns b = ''throughput'' then throughput_mode ns b env
      else Some (Failure 400 invalid_mode_message))"

definition speedtest_route ::
  "(rat \<Rightarrow> string) \<Rightarrow> server \<Rightarrow> body \<Rightarrow> st_env \<Rightarrow> server \<times> response option" where
  "speedtest_route ns srv b env =
     (case speedtest_admit srv of
        Refused r \<Rightarrow> (srv, Some r)
      | Admitted s \<Rightarrow>
          (case speedtest_try ns b env of
             None \<Rightarrow> (s, None)
           | Some resp \<Rightarrow> (s\<lparr>tcpBusy := False\<rparr>, Some resp)))"

section \<open>Notions used to state the properties\<close>

text \<open>A call that has not settled: nothing resolved, every listener and the timer in place.\<close>

definition live :: "call \<Rightarrow> bool" where
  "live c =
     (\<not> finished c \<and> on_data c \<and> on_error c \<and> on_close c \<and> timer c \<and> resolved c = [])"

text \<open>An event that ends no call by itself: a chunk, or the write completing without error.\<close>

fun quiet :: "event \<Rightarrow> bool" where
  "quiet (Data chunk now) = True"
| "quiet (WriteDone None now) = True"
| "quiet e = False"

text \<open>A connection error, a connection close or a failed write, with its message.\<close>

fun failure_message :: "event \<Rightarrow> string option" where
  "failure_message (SockError msg now) = Some msg"
| "failure_message (SockClose now) = Some ''socket closed''"
| "failure_message (WriteDone (Some msg) now) = Some msg"
| "failure_message e = None"

fun event_time :: "event \<Rightarrow> int" where
  "event_time (Data chunk now) = now"
| "event_time (SockError msg now) = now"
| "event_time (SockClose now) = now"
| "event_time (WriteDone err now) = now"
| "event_time TimerFire = 0"

text \<open>The text received in a sequence of events.\<close>

fun chunks_of :: "event list \<Rightarrow> string" where
  "chunks_of [] = []"
| "chunks_of (Data chunk now # es) = chunk @ chunks_of es"
| "chunks_of (e # es) = chunks_of es"

text \<open>
  The number of consecutive timeouts after the results \<open>rs\<close>, starting from \<open>c\<close>: one more
  on a timeout, zero on any other result.
\<close>

fun consecutive :: "nat \<Rightarrow> cmd_result list \<Rightarrow> nat" where
  "consecutive c [] = c"
| "consecutive c (r # rs) = consecutive (if timeout r then c + 1 else 0) rs"

text \<open>The records of the iterations \<open>i\<close>, \<open>i + 1\<close>, ... for the results \<open>rs\<close>.\<close>

fun entries :: "nat \<Rightarrow> cmd_result list \<Rightarrow> entry list" where
  "entries i [] = []"
| "entries i (r # rs) = mk_entry i r # entries (i + 1) rs"

text \<open>The round-trip times of the results that did not time out and have one.\<close>

definition counted_rtts :: "cmd_result list \<Rightarrow> int list" where
  "counted_rtts rs = List.map_filter (\<lambda>r. if timeout r then None else rtt_ms r) rs"

text \<open>The calls of the environments \<open>envs\<close> resolve, in order, with the results \<open>rs\<close>.\<close>

definition resolve_with :: "jsval \<Rightarrow> call_env list \<Rightarrow> cmd_result list \<Rightarrow> bool" where
  "resolve_with command envs rs =
     list_all2 (\<lambda>env r. sendCommandOnceOnSocket env command = Resolved r) envs rs"

text \<open>
  The printer of numbers on the natural numbers below \<open>10^21\<close>, where it gives their
  decimal digits; it stands for the runtime's printer in the examples.
\<close>

definition print_nat :: "rat \<Rightarrow> string" where
  "print_nat v = dec (nat \<lfloor>v\<rfloor>)"

text \<open>A request body with no field, and one with the given fields.\<close>

definition no_fields :: body where
  "no_fields = (\<lambda>k. JUndefined)"

fun with_fields :: "(string \<times> jsval) list \<Rightarrow> body" where
  "with_fields [] = no_fields"
| "with_fields ((k, v) # kvs) = (with_fields kvs)(k := v)"

text \<open>An open connection with the gate free, and with the gate held.\<close>

definition idle_server :: server where
  "idle_server = \<lparr>tcpClient = Some \<lparr>destroyed = False\<rparr>, tcpBusy = False\<rparr>"

definition busy_server :: server where
  "busy_server = \<lparr>tcpClient = Some \<lparr>destroyed = False\<rparr>, tcpBusy = True\<rparr>"

text \<open>An environment in which the instrument answers \<open>text\<close> at clock \<open>t\<close>, the call starting at 0.\<close>

definition answering :: "string \<Rightarrow> int \<Rightarrow> call_env" where
  "answering text t = \<lparr>start = 0, write_throws = None, events = [WriteDone None 0, Data text t]\<rparr>"

text \<open>An environment in which nothing comes back before the timer.\<close>

definition silent :: call_env where
  "silent = \<lparr>start = 0, write_throws = None, events = [WriteDone None 0]\<rparr>"

section \<open>The correlator settles once\<close>

lemma deliver_done: "finished c \<Longrightarrow> deactivated c \<Longrightarrow> deliver c e = c"
  by (cases e) (auto simp: deactivated_def onWritten_def split: option.splits)

lemma run_done: "finished c \<Longrightarrow> deactivated c \<Longrightarrow> run c evs = c"
  unfolding run_def by (induction evs) (auto simp: deliver_done)

lemma run_Cons: "run c (e # es) = run (deliver c e) es"
  by (simp add: run_def)

lemma run_append: "run c (xs @ ys) = run (run c xs) ys"
  by (simp add: run_def)

lemma run_live:
  "live c \<Longrightarrow>
   (case first_terminal (t0 c) (buffer c) evs of
      None \<Rightarrow> live (run c evs)
    | Some r \<Rightarrow> resolved (run c evs) = [r] \<and> finished (run c evs) \<and> deactivated (run c evs))"
proof (induction evs arbitrary: c)
  case Nil
  then show ?case by (simp add: run_def)
next
  case (Cons e es)
  show ?case
  proof (cases e)
    case (Data chunk now)
    show ?thesis
    proof (cases "LF \<in> set (buffer c @ chunk)")
      case True
      let ?d = "deliver c e"
      have d: "finished ?d" "deactivated ?d"
        "resolved ?d = [\<lparr>raw = trim (buffer c @ chunk), rtt_ms = Some (now - t0 c),
            bytes = length (buffer c @ chunk), timeout = False, error = None\<rparr>]"
        using Cons.prems True Data
        by (auto simp: live_def onData_def cleanup_def resolve_def deactivated_def Let_def)
      show ?thesis using d True Data by (simp add: run_Cons run_done split: option.splits)
    next
      case False
      have dd: "deliver c (Data chunk now) = c\<lparr>buffer := buffer c @ chunk\<rparr>"
        using Cons.prems False by (simp add: live_def onData_def Let_def)
      have l: "live (c\<lparr>buffer := buffer c @ chunk\<rparr>)"
        using Cons.prems by (simp add: live_def)
      show ?thesis using Cons.IH[OF l] False
        unfolding Data by (simp add: run_Cons dd del: deliver.simps split: option.splits)
    qed
  next
    case (SockError msg now)
    let ?d = "deliver c e"
    have d: "finished ?d" "deactivated ?d"
      "resolved ?d = [\<lparr>raw = trim (buffer c), rtt_ms = Some (now - t0 c),
            bytes = length (buffer c), timeout = False, error = Some msg\<rparr>]"
      using Cons.prems SockError
      by (auto simp: live_def onError_def cleanup_def resolve_def deactivated_def Let_def)
    show ?thesis using d SockError by (simp add: run_Cons run_done split: option.splits)
  next
    case (SockClose now)
    let ?d = "deliver c e"
    have d: "finished ?d" "deactivated ?d"
      "resolved ?d = [\<lparr>raw = trim (buffer c), rtt_ms = Some (now - t0 c),
            bytes = length (buffer c), timeout = False, error = Some ''socket closed''\<rparr>]"
      using Cons.prems SockClose
      by (auto simp: live_def onClose_def cleanup_def resolve_def deactivated_def Let_def)
    show ?thesis using d SockClose by (simp add: run_Cons run_done split: option.splits)
  next
    case (WriteDone err now)
    show ?thesis
    proof (cases err)
      case None
      have d: "deliver c e = c" using WriteDone None by (simp add: onWritten_def)
      show ?thesis using Cons.IH[OF Cons.prems] d WriteDone None
        by (simp add: run_Cons split: option.splits)
    next
      case (Some msg)
      let ?d = "deliver c e"
      have d: "finished ?d" "deactivated ?d"
        "resolved ?d = [\<lparr>raw = trim (buffer c), rtt_ms = Some (now - t0 c),
            bytes = length (buffer c), timeout = False, error = Some msg\<rparr>]"
        using Cons.prems WriteDone Some
        by (auto simp: live_def onWritten_def cleanup_def resolve_def deactivated_def Let_def)
      show ?thesis using d WriteDone Some by (simp add: run_Cons run_done split: option.splits)
    qed
  next
    case TimerFire
    let ?d = "deliver c e"
    have d: "finished ?d" "deactivated ?d"
      "resolved ?d = [\<lparr>raw = trim (buffer c), rtt_ms = None,
            bytes = length (buffer c), timeout = True, error = None\<rparr>]"
      using Cons.prems TimerFire
      by (auto simp: live_def onTimer_def cleanup_def resolve_def deactivated_def Let_def)
    show ?thesis using d TimerFire by (simp add: run_Cons run_done split: option.splits)
  qed
qed

lemma run_live_None:
  "live c \<Longrightarrow> first_terminal (t0 c) (buffer c) evs = None \<Longrightarrow> resolved (run c evs) = []"
  using run_live[of c evs] by (simp add: live_def)

lemma run_live_Some:
  "live c \<Longrightarrow> first_terminal (t0 c) (buffer c) evs = Some r \<Longrightarrow>
   resolved (run c evs) = [r] \<and> finished (run c evs) \<and> deactivated (run c evs)"
  using run_live[of c evs] by simp

lemma executor_live:
  "write_throws env = None \<Longrightarrow>
   \<exists>c. executor env command = Inr c \<and> live c \<and> t0 c = start env \<and> buffer c = []"
  by (simp add: executor_def live_def Let_def)

lemma first_terminal_quiet:
  "list_all quiet evs \<Longrightarrow> LF \<notin> set (buf @ chunks_of evs) \<Longrightarrow>
   first_terminal st buf (evs @ rest) = first_terminal st (buf @ chunks_of evs) rest"
proof (induction evs arbitrary: buf)
  case Nil
  then show ?case by simp
next
  case (Cons e es)
  then show ?case
  proof (cases e)
    case (WriteDone err now)
    with Cons show ?thesis by (cases err) auto
  qed auto
qed

lemma first_terminal_timer:
  "first_terminal st buf (evs @ [TimerFire]) \<noteq> None"
proof (induction evs arbitrary: buf)
  case Nil
  then show ?case by simp
next
  case (Cons e es)
  then show ?case
  proof (cases e)
    case (WriteDone err now)
    with Cons show ?thesis by (cases err) auto
  qed auto
qed

lemma send_resolves:
  assumes "write_throws env = None"
    and "first_terminal (start env) [] (events env @ [TimerFire]) = Some r"
  shows "sendCommandOnceOnSocket env (JStr command) = Resolved r"
proof -
  obtain c where c: "executor env command = Inr c" "live c" "t0 c = start env" "buffer c = []"
    using executor_live[OF assms(1)] by blast
  have "resolved (run c (events env @ [TimerFire])) = [r]"
    using run_live_Some[of c "events env @ [TimerFire]" r] c assms(2) by simp
  then show ?thesis using c(1) by (simp add: sendCommandOnceOnSocket_def)
qed

text \<open>
  C1. For every open connection (a socket whose \<open>write\<close> does not throw at once) and every
  command, a call resolves exactly once: the values passed to \<open>resolve\<close> after any sequence
  of events are exactly the result of the first terminal event in it (the first line
  terminator in the buffer, the timer, or an error, close or failed write), none before
  it and no second one after it; once it has occurred the call is finished, its three
  listeners are removed and its timer is cleared, and no later event changes anything.
  The awaited call, whose timer does fire, resolves with that one result.
\<close>

theorem correlate_resolves_exactly_once:
  assumes "write_throws env = None"
  shows "\<exists>c. executor env command = Inr c \<and>
           (\<forall>evs. resolved (run c evs) =
                    (case first_terminal (start env) [] evs of None \<Rightarrow> [] | Some r \<Rightarrow> [r]) \<and>
                  (first_terminal (start env) [] evs \<noteq> None \<longrightarrow>
                     finished (run c evs) \<and> deactivated (run c evs) \<and>
                     (\<forall>later. run c (evs @ later) = run c evs))) \<and>
           (\<exists>r. first_terminal (start env) [] (events env @ [TimerFire]) = Some r \<and>
                 sendCommandOnceOnSocket env (JStr command) = Resolved r)"
proof -
  obtain c where c: "executor env command = Inr c" "live c" "t0 c = start env" "buffer c = []"
    using executor_live[OF assms] by blast
  have a: "resolved (run c evs) =
             (case first_terminal (start env) [] evs of None \<Rightarrow> [] | Some r \<Rightarrow> [r])" for evs
    using run_live_None[of c evs] run_live_Some[of c evs] c
    by (cases "first_terminal (start env) [] evs") auto
  have b: "finished (run c evs) \<and> deactivated (run c evs) \<and>
           (\<forall>later. run c (evs @ later) = run c evs)"
    if h: "first_terminal (start env) [] evs \<noteq> None" for evs
  proof -
    obtain r where "first_terminal (start env) [] evs = Some r" using h by auto
    then have "finished (run c evs)" "deactivated (run c evs)"
      using run_live_Some[of c evs r] c by auto
    then show ?thesis by (simp add: run_append run_done)
  qed
  obtain r where r: "first_terminal (start env) [] (events env @ [TimerFire]) = Some r"
    using first_terminal_timer[of "start env" "[]" "events env"] by auto
  have "sendCommandOnceOnSocket env (JStr command) = Resolved r"
    using send_resolves[OF assms r] .
  with a b c(1) r show ?thesis by blast
qed

lemma trim_reply: "trim (''1.0'' @ [LF]) = ''1.0''"
  by (simp add: trim_def trimEnd_def ws1_def ws2_def ws3_def LF_def)

theorem correlate_resolves_exactly_once_witness:
  "sendCommandOnceOnSocket (answering (''1.0'' @ [LF]) 5) (JStr ''MEAS:VOLT?'') =
     Resolved \<lparr>raw = ''1.0'', rtt_ms = Some 5, bytes = 4, timeout = False, error = None\<rparr>"
  using correlate_resolves_exactly_once[of "answering (''1.0'' @ [LF]) 5" "''MEAS:VOLT?''"]
  by (auto simp: answering_def trim_reply[simplified])

section \<open>Timeouts, failures and replies\<close>

lemma trim_Nil: "trim [] = []"
  by (simp add: trim_def trimEnd_def)

lemma timeout_result:
  assumes "write_throws env = None" "list_all quiet (events env)"
    "LF \<notin> set (chunks_of (events env))"
  shows "sendCommandOnceOnSocket env (JStr command) =
           Resolved \<lparr>raw = trim (chunks_of (events env)), rtt_ms = None,
                     bytes = length (chunks_of (events env)), timeout = True, error = None\<rparr>"
proof -
  have "first_terminal (start env) [] (events env @ [TimerFire]) =
          first_terminal (start env) ([] @ chunks_of (events env)) [TimerFire]"
    using assms by (intro first_terminal_quiet) auto
  then show ?thesis using assms(1) by (intro send_resolves) auto
qed

lemma reply_result:
  assumes "write_throws env = None" "events env = pre @ Data chunk now # rest"
    "list_all quiet pre" "LF \<notin> set (chunks_of pre)" "LF \<in> set chunk"
  shows "sendCommandOnceOnSocket env (JStr command) =
           Resolved \<lparr>raw = trim (chunks_of pre @ chunk), rtt_ms = Some (now - start env),
                     bytes = length (chunks_of pre @ chunk), timeout = False, error = None\<rparr>"
proof -
  have "first_terminal (start env) [] (events env @ [TimerFire]) =
          first_terminal (start env) ([] @ chunks_of pre) (Data chunk now # rest @ [TimerFire])"
    using assms first_terminal_quiet[of pre "[]" "start env" "Data chunk now # rest @ [TimerFire]"]
    by simp
  then show ?thesis using assms(1,5) by (intro send_resolves) auto
qed

lemma failure_result:
  assumes "write_throws env = None" "events env = pre @ e # rest"
    "list_all quiet pre" "LF \<notin> set (chunks_of pre)" "failure_message e = Some msg"
  shows "sendCommandOnceOnSocket env (JStr command) =
           Resolved \<lparr>raw = trim (chunks_of pre), rtt_ms = Some (event_time e - start env),
                     bytes = length (chunks_of pre), timeout = False, error = Some msg\<rparr>"
proof -
  have a: "first_terminal (start env) [] (events env @ [TimerFire]) =
          first_terminal (start env) ([] @ chunks_of pre) (e # rest @ [TimerFire])"
    using assms first_terminal_quiet[of pre "[]" "start env" "e # rest @ [TimerFire]"]
    by simp
  have "first_terminal (start env) (chunks_of pre) (e # rest @ [TimerFire]) =
          Some \<lparr>raw = trim (chunks_of pre), rtt_ms = Some (event_time e - start env),
                bytes = length (chunks_of pre), timeout = False, error = Some msg\<rparr>"
    using assms(5)
  proof (cases e)
    case (WriteDone err t)
    with assms(5) show ?thesis by (cases err) auto
  qed auto
  with a show ?thesis using assms(1) by (intro send_resolves) auto
qed

text \<open>
  The statement of C2 without the condition on errors fails: no line terminator ever
  arrives, the connection closes before the timer, and the call resolves with
  \<open>timeout\<close> unset and a numeric \<open>rtt_ms\<close>.
\<close>

theorem timeout_claim_counterexample:
  "sendCommandOnceOnSocket
     \<lparr>start = 0, write_throws = None, events = [WriteDone None 0, SockClose 5]\<rparr>
     (JStr ''MEAS:VOLT?'') =
   Resolved \<lparr>raw = [], rtt_ms = Some 5, bytes = 0, timeout = False,
             error = Some ''socket closed''\<rparr>"
  using failure_result[of "\<lparr>start = 0, write_throws = None, events = [WriteDone None 0, SockClose 5]\<rparr>"
      "[WriteDone None 0]" "SockClose 5" "[]" "''socket closed''" "''MEAS:VOLT?''"]
  by (simp add: trim_Nil)

text \<open>
  C2 (amended). For every call in which the timer fires before a line terminator has
  arrived and before any connection error, close or failed write, the call resolves with
  \<open>timeout = true\<close>, \<open>rtt_ms = null\<close> and \<open>bytes\<close> the byte length of the text buffered
  so far. The timeout leaves the connection as it was: the listeners of the call are
  removed, the socket is not touched, the measurement route answers 504 and frees the
  gate, and a following call on the same connection resolves with the instrument's
  reply.
\<close>

theorem timeout_keeps_connection:
  assumes "write_throws env = None" "list_all quiet (events env)"
    "LF \<notin> set (chunks_of (events env))"
  shows "sendCommandOnceOnSocket env (JStr command) =
           Resolved \<lparr>raw = trim (chunks_of (events env)), rtt_ms = None,
                     bytes = length (chunks_of (events env)), timeout = True, error = None\<rparr> \<and>
         (\<exists>c. executor env command = Inr c \<and>
              deactivated (run c (events env @ [TimerFire]))) \<and>
         (\<forall>kind srv. \<not> not_connected srv \<and> \<not> tcpBusy srv \<longrightarrow>
            snd (measure_route kind command srv env) =
              Some (Failure 504 ''Timeout waiting for instrument reply'') \<and>
            tcpClient (fst (measure_route kind command srv env)) = tcpClient srv \<and>
            \<not> not_connected (fst (measure_route kind command srv env)) \<and>
            \<not> tcpBusy (fst (measure_route kind command srv env)) \<and>
            (\<forall>env2 pre chunk now rest.
               write_throws env2 = None \<and> events env2 = pre @ Data chunk now # rest \<and>
               list_all quiet pre \<and> chunks_of pre = [] \<and> LF \<in> set chunk \<longrightarrow>
               snd (measure_route kind command (fst (measure_route kind command srv env)) env2) =
                 Some (measure_answer kind
                         \<lparr>raw = trim chunk, rtt_ms = Some (now - start env2),
                          bytes = length chunk, timeout = False, error = None\<rparr>)))"
proof -
  let ?r = "\<lparr>raw = trim (chunks_of (events env)), rtt_ms = None,
             bytes = length (chunks_of (events env)), timeout = True, error = None\<rparr>"
  have r: "sendCommandOnceOnSocket env (JStr command) = Resolved ?r"
    using timeout_result[OF assms] .
  obtain c where c: "executor env command = Inr c" "live c" "t0 c = start env" "buffer c = []"
    using executor_live[OF assms(1)] by blast
  obtain x where "first_terminal (start env) [] (events env @ [TimerFire]) = Some x"
    using first_terminal_timer[of "start env" "[]" "events env"] by auto
  then have d: "deactivated (run c (events env @ [TimerFire]))"
    using run_live_Some[of c "events env @ [TimerFire]" x] c by simp
  have m: "snd (measure_route kind command srv env) =
              Some (Failure 504 ''Timeout waiting for instrument reply'') \<and>
            tcpClient (fst (measure_route kind command srv env)) = tcpClient srv \<and>
            \<not> not_connected (fst (measure_route kind command srv env)) \<and>
            \<not> tcpBusy (fst (measure_route kind command srv env)) \<and>
            (\<forall>env2 pre chunk now rest.
               write_throws env2 = None \<and> events env2 = pre @ Data chunk now # rest \<and>
               list_all quiet pre \<and> chunks_of pre = [] \<and> LF \<in> set chunk \<longrightarrow>
               snd (measure_route kind command (fst (measure_route kind command srv env)) env2) =
                 Some (measure_answer kind
                         \<lparr>raw = trim chunk, rtt_ms = Some (now - start env2),
                          bytes = length chunk, timeout = False, error = None\<rparr>))"
    if h: "\<not> not_connected srv \<and> \<not> tcpBusy srv" for kind srv
  proof -
    have f: "measure_route kind command srv env =
               (srv\<lparr>tcpBusy := False\<rparr>, Some (Failure 504 ''Timeout waiting for instrument reply''))"
      using h r by (simp add: measure_route_def measure_admit_def measure_answer_def)
    have g: "snd (measure_route kind command (srv\<lparr>tcpBusy := False\<rparr>) env2) =
                 Some (measure_answer kind
                         \<lparr>raw = trim chunk, rtt_ms = Some (now - start env2),
                          bytes = length chunk, timeout = False, error = None\<rparr>)"
      if k: "write_throws env2 = None \<and> events env2 = pre @ Data chunk now # rest \<and>
               list_all quiet pre \<and> chunks_of pre = [] \<and> LF \<in> set chunk"
      for env2 pre chunk now rest
    proof -
      have "sendCommandOnceOnSocket env2 (JStr command) =
              Resolved \<lparr>raw = trim chunk, rtt_ms = Some (now - start env2),
                        bytes = length chunk, timeout = False, error = None\<rparr>"
        using reply_result[of env2 pre chunk now rest command] k by simp
      then show ?thesis using h
        by (simp add: measure_route_def measure_admit_def not_connected_def)
    qed
    show ?thesis using f g h by (simp add: not_connected_def) blast
  qed
  show ?thesis using r c(1) d m by blast
qed

theorem timeout_keeps_connection_witness:
  "sendCommandOnceOnSocket silent (JStr ''MEAS:VOLT?'') =
     Resolved \<lparr>raw = [], rtt_ms = None, bytes = 0, timeout = True, error = None\<rparr> \<and>
   snd (measure_volt idle_server silent) =
     Some (Failure 504 ''Timeout waiting for instrument reply'') \<and>
   tcpClient (fst (measure_volt idle_server silent)) = Some \<lparr>destroyed = False\<rparr> \<and>
   snd (measure_volt (fst (measure_volt idle_server silent)) (answering (''1.0'' @ [LF]) 5)) =
     Some (measure_answer ''volt''
             \<lparr>raw = ''1.0'', rtt_ms = Some 5, bytes = 4, timeout = False, error = None\<rparr>)"
proof -
  have h: "write_throws silent = None" "list_all quiet (events silent)"
    "LF \<notin> set (chunks_of (events silent))"
    by (simp_all add: silent_def)
  have i: "\<not> not_connected idle_server \<and> \<not> tcpBusy idle_server"
    by (simp add: idle_server_def not_connected_def)
  have k: "write_throws (answering (''1.0'' @ [LF]) 5) = None \<and>
           events (answering (''1.0'' @ [LF]) 5) = [WriteDone None 0] @ Data (''1.0'' @ [LF]) 5 # [] \<and>
           list_all quiet [WriteDone None 0] \<and> chunks_of [WriteDone None 0] = [] \<and>
           LF \<in> set (''1.0'' @ [LF])"
    by (simp add: answering_def)
  note t = timeout_keeps_connection[OF h, of "''MEAS:VOLT?''"]
  from t have a: "sendCommandOnceOnSocket silent (JStr ''MEAS:VOLT?'') =
     Resolved \<lparr>raw = [], rtt_ms = None, bytes = 0, timeout = True, error = None\<rparr>"
    by (simp add: silent_def trim_Nil)
  from t i have b: "snd (measure_volt idle_server silent) =
      Some (Failure 504 ''Timeout waiting for instrument reply'') \<and>
    tcpClient (fst (measure_volt idle_server silent)) = tcpClient idle_server \<and>
    (\<forall>env2 pre chunk now rest.
               write_throws env2 = None \<and> events env2 = pre @ Data chunk now # rest \<and>
               list_all quiet pre \<and> chunks_of pre = [] \<and> LF \<in> set chunk \<longrightarrow>
               snd (measure_volt (fst (measure_volt idle_server silent)) env2) =
                 Some (measure_answer ''volt''
                         \<lparr>raw = trim chunk, rtt_ms = Some (now - start env2),
                          bytes = length chunk, timeout = False, error = None\<rparr>))"
    unfolding measure_volt_def by blast
  from b k have c: "snd (measure_volt (fst (measure_volt idle_server silent)) (answering (''1.0'' @ [LF]) 5)) =
                 Some (measure_answer ''volt''
                         \<lparr>raw = trim (''1.0'' @ [LF]), rtt_ms = Some (5 - start (answering (''1.0'' @ [LF]) 5)),
                          bytes = length (''1.0'' @ [LF]), timeout = False, error = None\<rparr>)"
    by blast
  from b have b1: "snd (measure_volt idle_server silent) =
      Some (Failure 504 ''Timeout waiting for instrument reply'')"
    and b2: "tcpClient (fst (measure_volt idle_server silent)) = tcpClient idle_server"
    by blast+
  have b3: "tcpClient idle_server = Some \<lparr>destroyed = False\<rparr>"
    by (simp add: idle_server_def)
  have c': "snd (measure_volt (fst (measure_volt idle_server silent)) (answering (''1.0'' @ [LF]) 5)) =
     Some (measure_answer ''volt''
             \<lparr>raw = ''1.0'', rtt_ms = Some 5, bytes = 4, timeout = False, error = None\<rparr>)"
    using c by (simp add: trim_reply[simplified] answering_def eval_nat_numeral)
  show ?thesis using a b1 b2 b3 c' by simp
qed

lemma is_success_failure:
  "is_success (mk_entry i \<lparr>raw = rw, rtt_ms = Some v, bytes = b, timeout = False, error = e\<rparr>)"
  by (simp add: mk_entry_def)

lemma statistics_single:
  "rtt_statistics [mk_entry i \<lparr>raw = rw, rtt_ms = Some v, bytes = b, timeout = False, error = e\<rparr>] =
     \<lparr>avg_ms = Some (of_int v), min_ms = Some v, max_ms = Some v,
      ops_per_sec = (if v = 0 then None else Some (1000 / of_int v)), total_bytes = b\<rparr>"
  by (simp add: rtt_statistics_def successes_def mk_entry_def Let_def)

text \<open>
  C10. A call whose first terminal event is a connection error, a connection close or
  a failed write resolves with a numeric \<open>rtt_ms\<close> (the time elapsed when the event is
  handled), no timeout flag, and the error message. The record made of such a result
  passes the filter \<open>successes\<close> of the latency mode wherever it stands in \<open>results\<close>, so
  its \<open>rtt_ms\<close> enters \<open>avg_ms\<close>, \<open>min_ms\<close> and \<open>max_ms\<close>.
\<close>

theorem failure_counts_as_success:
  assumes "write_throws env = None" "events env = pre @ e # rest"
    "list_all quiet pre" "LF \<notin> set (chunks_of pre)" "failure_message e = Some msg"
  shows "\<exists>r. sendCommandOnceOnSocket env (JStr command) = Resolved r \<and>
             rtt_ms r = Some (event_time e - start env) \<and> \<not> timeout r \<and> error r = Some msg \<and>
             (\<forall>i. is_success (mk_entry i r)) \<and>
             (\<forall>i xs ys. successes (xs @ mk_entry i r # ys) =
                          successes xs @ mk_entry i r # successes ys) \<and>
             (\<forall>i. avg_ms (rtt_statistics [mk_entry i r]) = Some (of_int (event_time e - start env)) \<and>
                  min_ms (rtt_statistics [mk_entry i r]) = Some (event_time e - start env) \<and>
                  max_ms (rtt_statistics [mk_entry i r]) = Some (event_time e - start env))"
proof -
  let ?r = "\<lparr>raw = trim (chunks_of pre), rtt_ms = Some (event_time e - start env),
             bytes = length (chunks_of pre), timeout = False, error = Some msg\<rparr>"
  have a: "sendCommandOnceOnSocket env (JStr command) = Resolved ?r"
    using failure_result[OF assms] .
  have b: "is_success (mk_entry i ?r)" for i
    by (rule is_success_failure)
  have c: "successes (xs @ mk_entry i ?r # ys) = successes xs @ mk_entry i ?r # successes ys"
    for i xs ys
    using b[of i] by (simp add: successes_def)
  have d: "avg_ms (rtt_statistics [mk_entry i ?r]) = Some (of_int (event_time e - start env)) \<and>
           min_ms (rtt_statistics [mk_entry i ?r]) = Some (event_time e - start env) \<and>
           max_ms (rtt_statistics [mk_entry i ?r]) = Some (event_time e - start env)" for i
    by (simp add: statistics_single)
  show ?thesis
    by (rule exI[of _ ?r]) (use a b c d in simp)
qed

theorem failure_counts_as_success_witness:
  "sendCommandOnceOnSocket \<lparr>start = 100, write_throws = None,
       events = [WriteDone None 100, SockClose 107]\<rparr> (JStr ''MEAS:VOLT?'') =
     Resolved \<lparr>raw = [], rtt_ms = Some 7, bytes = 0, timeout = False,
               error = Some ''socket closed''\<rparr> \<and>
   avg_ms (rtt_statistics [mk_entry 0 \<lparr>raw = [], rtt_ms = Some 7, bytes = 0, timeout = False,
               error = Some ''socket closed''\<rparr>]) = Some 7"
proof -
  let ?env = "\<lparr>start = 100, write_throws = None, events = [WriteDone None 100, SockClose 107]\<rparr>"
  have "\<exists>r. sendCommandOnceOnSocket ?env (JStr ''MEAS:VOLT?'') = Resolved r \<and>
             rtt_ms r = Some (event_time (SockClose 107) - start ?env) \<and> \<not> timeout r \<and>
             error r = Some ''socket closed'' \<and>
             (\<forall>i. is_success (mk_entry i r)) \<and>
             (\<forall>i xs ys. successes (xs @ mk_entry i r # ys) =
                          successes xs @ mk_entry i r # successes ys) \<and>
             (\<forall>i. avg_ms (rtt_statistics [mk_entry i r]) = Some (of_int (event_time (SockClose 107) - start ?env)) \<and>
                  min_ms (rtt_statistics [mk_entry i r]) = Some (event_time (SockClose 107) - start ?env) \<and>
                  max_ms (rtt_statistics [mk_entry i r]) = Some (event_time (SockClose 107) - start ?env))"
    by (rule failure_counts_as_success[of ?env "[WriteDone None 100]" "SockClose 107" "[]" "''socket closed''"])
       simp_all
  then obtain r where r: "sendCommandOnceOnSocket ?env (JStr ''MEAS:VOLT?'') = Resolved r"
    "avg_ms (rtt_statistics [mk_entry 0 r]) = Some (of_int (event_time (SockClose 107) - start ?env))"
    by blast
  have "sendCommandOnceOnSocket ?env (JStr ''MEAS:VOLT?'') = 
     Resolved \<lparr>raw = [], rtt_ms = Some 7, bytes = 0, timeout = False,
               error = Some ''socket closed''\<rparr>"
    using failure_result[of ?env "[WriteDone None 100]" "SockClose 107" "[]" "''socket closed''" "''MEAS:VOLT?''"]
    by (simp add: trim_Nil)
  with r show ?thesis by simp
qed

section \<open>Measurements\<close>

lemma trim_3301: "trim ''3.301'' = ''3.301''"
  by (simp add: trim_def trimEnd_def ws1_def ws2_def ws3_def)

lemma literal_3301: "StrUnsignedDecimalLiteral ''3.301'' = Some (3301 / 1000)"
  by (simp add: StrUnsignedDecimalLiteral_def is_digit_def ExponentPart_opt_def digits_val_def
      digit_val_def)

lemma double_3301: "to_double (3301 / 1000) = Fin (3301 / 1000)"
  by (simp add: to_double_def)

lemma Number_3301: "StringToNumber ''3.301'' = Fin (3301 / 1000)"
  by (simp add: StringToNumber_def trim_3301 NonDecimalIntegerLiteral_def
      StrDecimalLiteral_def literal_3301 double_3301)

lemma Number_ERR: "StringToNumber ''ERR'' = NaN"
  by (simp add: StringToNumber_def trim_def trimEnd_def ws1_def ws2_def ws3_def
      NonDecimalIntegerLiteral_def StrDecimalLiteral_def StrUnsignedDecimalLiteral_def
      is_digit_def ExponentPart_opt_def)

lemma trim_3301_line: "trim (''3.301'' @ [LF]) = ''3.301''"
  by (simp add: trim_def trimEnd_def ws1_def ws2_def ws3_def LF_def)

lemma trim_ERR_line: "trim (''ERR'' @ [LF]) = ''ERR''"
  by (simp add: trim_def trimEnd_def ws1_def ws2_def ws3_def LF_def)

lemma answering_result:
  "LF \<in> set chunk \<Longrightarrow>
   sendCommandOnceOnSocket (answering chunk t) (JStr command) =
     Resolved \<lparr>raw = trim chunk, rtt_ms = Some t, bytes = length chunk, timeout = False,
               error = None\<rparr>"
  using reply_result[of "answering chunk t" "[WriteDone None 0]" chunk t "[]" command]
  by (simp add: answering_def)

text \<open>
  What a measurement route answers for a call that resolved without timing out, on an
  open connection with the gate free: \<open>value\<close> is \<open>Number(raw)\<close> when that is finite and the
  raw text otherwise.
\<close>

lemma measure_route_value:
  assumes "\<not> not_connected srv" "\<not> tcpBusy srv"
    "sendCommandOnceOnSocket env (JStr command) = Resolved r" "\<not> timeout r"
  shows "measure_route kind command srv env =
           (srv\<lparr>tcpBusy := False\<rparr>,
            Some (Measurement
                    \<lparr>m_type = kind, m_raw = raw r,
                     m_value = (case StringToNumber (raw r) of
                                  Fin v \<Rightarrow> VNum v
                                | PInf \<Rightarrow> VStr (raw r)
                                | NInf \<Rightarrow> VStr (raw r)
                                | NaN \<Rightarrow> VStr (raw r)),
                     m_rtt_ms = rtt_ms r, m_bytes = bytes r\<rparr>)) \<and>
         measured_value ''3.301'' = VNum (3301 / 1000) \<and>
         measured_value ''ERR'' = VStr ''ERR''"
proof -
  have "measured_value (raw r) =
          (case StringToNumber (raw r) of
             Fin v \<Rightarrow> VNum v | PInf \<Rightarrow> VStr (raw r) | NInf \<Rightarrow> VStr (raw r) | NaN \<Rightarrow> VStr (raw r))"
    by (simp add: measured_value_def split: jsnum.splits)
  then have "measure_route kind command srv env =
           (srv\<lparr>tcpBusy := False\<rparr>,
            Some (Measurement
                    \<lparr>m_type = kind, m_raw = raw r,
                     m_value = (case StringToNumber (raw r) of
                                  Fin v \<Rightarrow> VNum v
                                | PInf \<Rightarrow> VStr (raw r)
                                | NInf \<Rightarrow> VStr (raw r)
                                | NaN \<Rightarrow> VStr (raw r)),
                     m_rtt_ms = rtt_ms r, m_bytes = bytes r\<rparr>))"
    using assms by (simp add: measure_route_def measure_admit_def measure_answer_def)
  moreover have "measured_value ''3.301'' = VNum (3301 / 1000)"
    by (simp add: measured_value_def Number_3301)
  moreover have "measured_value ''ERR'' = VStr ''ERR''"
    by (simp add: measured_value_def Number_ERR)
  ultimately show ?thesis by simp
qed

lemma measure_volt_examples:
  "measure_volt idle_server (answering (''3.301'' @ [LF]) 5) =
     (idle_server,
      Some (Measurement \<lparr>m_type = ''volt'', m_raw = ''3.301'', m_value = VNum (3301 / 1000),
                         m_rtt_ms = Some 5, m_bytes = 6\<rparr>)) \<and>
   measure_volt idle_server (answering (''ERR'' @ [LF]) 5) =
     (idle_server,
      Some (Measurement \<lparr>m_type = ''volt'', m_raw = ''ERR'', m_value = VStr ''ERR'',
                         m_rtt_ms = Some 5, m_bytes = 4\<rparr>))"
proof -
  have i: "\<not> not_connected idle_server" "\<not> tcpBusy idle_server"
    by (simp_all add: idle_server_def not_connected_def)
  have j: "idle_server\<lparr>tcpBusy := False\<rparr> = idle_server"
    by (simp add: idle_server_def)
  have a: "sendCommandOnceOnSocket (answering (''3.301'' @ [LF]) 5) (JStr ''MEAS:VOLT?'') =
             Resolved \<lparr>raw = ''3.301'', rtt_ms = Some 5, bytes = 6, timeout = False, error = None\<rparr>"
    using answering_result[of "''3.301'' @ [LF]" 5 "''MEAS:VOLT?''"]
    by (simp add: trim_3301_line[simplified])
  have b: "sendCommandOnceOnSocket (answering (''ERR'' @ [LF]) 5) (JStr ''MEAS:VOLT?'') =
             Resolved \<lparr>raw = ''ERR'', rtt_ms = Some 5, bytes = 4, timeout = False, error = None\<rparr>"
    using answering_result[of "''ERR'' @ [LF]" 5 "''MEAS:VOLT?''"]
    by (simp add: trim_ERR_line[simplified])
  show ?thesis
    using measure_route_value[OF i a, of "''volt''"] measure_route_value[OF i b, of "''volt''"]
    by (simp add: measure_volt_def j Number_3301 Number_ERR)
qed

section \<open>The gate\<close>

lemma gate_refuses:
  "\<not> not_connected srv \<Longrightarrow> tcpBusy srv \<Longrightarrow>
   measure_admit srv = Refused (Failure 409 ''Device busy'') \<and>
   speedtest_admit srv = Refused (Failure 409 ''Device busy'') \<and>
   measure_route kind command srv env = (srv, Some (Failure 409 ''Device busy'')) \<and>
   speedtest_route ns srv b senv = (srv, Some (Failure 409 ''Device busy''))"
  by (simp add: measure_admit_def speedtest_admit_def measure_route_def speedtest_route_def)

lemma gate_taken:
  "\<not> not_connected srv \<Longrightarrow> \<not> tcpBusy srv \<Longrightarrow>
   measure_admit srv = Admitted (srv\<lparr>tcpBusy := True\<rparr>) \<and>
   speedtest_admit srv = Admitted (srv\<lparr>tcpBusy := True\<rparr>)"
  by (simp add: measure_admit_def speedtest_admit_def)

lemma send_admit_any: "\<not> not_connected srv \<Longrightarrow> send_admit srv = Admitted srv"
  by (simp add: send_admit_def)

text \<open>
  C3 fails on \<open>POST /send\<close>. With the gate held (\<open>tcpBusy = true\<close>, as during a speed
  test), a reply-expecting \<open>/send\<close> is admitted, runs its correlation on the connection
  and answers with the reply; it neither tests nor sets the gate. The measurement
  route in the same state answers 409 "Device busy".
\<close>

theorem send_runs_while_gate_held:
  "send_admit busy_server = Admitted busy_server \<and>
   send_route busy_server (with_fields [(''data'', JStr ''MEAS:VOLT?'')]) None
       (answering (''1.0'' @ [LF]) 5) =
     (busy_server,
      Some (Reply \<lparr>reply = ''1.0'', reply_rtt_ms = Some 5, reply_bytes = 4,
                   reply_timeout = False, reply_error = None\<rparr>)) \<and>
   measure_volt busy_server (answering (''1.0'' @ [LF]) 5) =
     (busy_server, Some (Failure 409 ''Device busy''))"
proof -
  have n: "\<not> not_connected busy_server" "tcpBusy busy_server"
    by (simp_all add: busy_server_def not_connected_def)
  have a: "sendCommandOnceOnSocket (answering (''1.0'' @ [LF]) 5) (JStr ''MEAS:VOLT?'') =
             Resolved \<lparr>raw = ''1.0'', rtt_ms = Some 5, bytes = 4, timeout = False, error = None\<rparr>"
    using answering_result[of "''1.0'' @ [LF]" 5 "''MEAS:VOLT?''"]
    by (simp add: trim_reply[simplified])
  have s: "send_route busy_server (with_fields [(''data'', JStr ''MEAS:VOLT?'')]) None
       (answering (''1.0'' @ [LF]) 5) =
     (busy_server,
      Some (Reply \<lparr>reply = ''1.0'', reply_rtt_ms = Some 5, reply_bytes = 4,
                   reply_timeout = False, reply_error = None\<rparr>))"
    using n(1) a
    by (simp add: send_route_def send_admit_def field_default_def no_fields_def error_or_null_def)
  show ?thesis
    using s send_admit_any[OF n(1)] gate_refuses[OF n, of "''volt''" "''MEAS:VOLT?''"]
    by (simp add: measure_volt_def)
qed

section \<open>The loops of the speed test\<close>

lemma consecutive_takeWhile:
  "consecutive c rs =
     (if list_all timeout rs then c + length rs else length (takeWhile timeout (rev rs)))"
proof (induction rs arbitrary: c)
  case Nil
  then show ?case by simp
next
  case (Cons r rs)
  show ?case
  proof (cases "list_all timeout rs")
    case True
    then have "takeWhile timeout (rev rs @ [r]) = rev rs @ takeWhile timeout [r]"
      by (intro takeWhile_append2) (simp add: list_all_iff)
    then show ?thesis using Cons.IH True by simp
  next
    case False
    then obtain x where "x \<in> set (rev rs)" "\<not> timeout x"
      by (auto simp: list_all_iff)
    then have "takeWhile timeout (rev rs @ [r]) = takeWhile timeout (rev rs)"
      by (intro takeWhile_append1) auto
    then show ?thesis using Cons.IH False by simp
  qed
qed

lemma consecutive_trailing: "consecutive 0 rs = length (takeWhile timeout (rev rs))"
proof (cases "list_all timeout rs")
  case True
  then have "takeWhile timeout (rev rs) = rev rs"
    by (simp add: list_all_iff)
  then have l: "length (takeWhile timeout (rev rs)) = length rs"
    by (simp only: length_rev)
  show ?thesis unfolding consecutive_takeWhile using True l by simp
next
  case False
  then show ?thesis by (simp add: consecutive_takeWhile)
qed

lemma resolve_with_Cons:
  "resolve_with command (e # es) (r # rs) \<longleftrightarrow>
     sendCommandOnceOnSocket e command = Resolved r \<and> resolve_with command es rs"
  by (simp add: resolve_with_def)

lemma resolve_with_length: "resolve_with command es rs \<Longrightarrow> length es = length rs"
  by (simp add: resolve_with_def list_all2_lengthD)

lemma rtt_loop_aborts:
  assumes "resolve_with command es rs" "rs \<noteq> []"
    "\<forall>m < length rs. js_lt (Fin (of_nat (i + m))) count"
    "\<forall>m. 0 < m \<and> m < length rs \<longrightarrow> \<not> maxC \<le> of_nat (consecutive ct (take m rs))"
    "maxC \<le> of_nat (consecutive ct rs)"
  shows "rtt_loop command count maxC i ct res (es @ rest) =
           Some (Inr (res @ entries i rs @ [Note (abort_note (consecutive ct rs))]))"
  using assms
proof (induction es arbitrary: rs i ct res)
  case Nil
  then show ?case by (simp add: resolve_with_def)
next
  case (Cons e es)
  then obtain r rs' where rs: "rs = r # rs'"
    by (cases rs) (auto simp: resolve_with_def)
  have s: "sendCommandOnceOnSocket e command = Resolved r" "resolve_with command es rs'"
    using Cons.prems(1) rs by (simp_all add: resolve_with_Cons)
  have lt: "js_lt (Fin (of_nat i)) count"
    using Cons.prems(3) rs by auto
  let ?ct = "if timeout r then ct + 1 else 0"
  show ?case
  proof (cases "rs' = []")
    case True
    then have "maxC \<le> of_nat ?ct" using Cons.prems(5) rs by simp
    then show ?thesis using s lt rs True by (simp add: Let_def)
  next
    case False
    have "\<not> maxC \<le> of_nat (consecutive ct (take 1 rs))"
      using Cons.prems(4) False rs by (simp del: take_Suc_Cons One_nat_def)
    then have nb: "\<not> maxC \<le> of_nat ?ct" using rs by simp
    have a: "\<forall>m < length rs'. js_lt (Fin (of_nat (i + 1 + m))) count"
    proof (intro allI impI)
      fix m assume "m < length rs'"
      then have "Suc m < length rs" using rs by simp
      then have "js_lt (Fin (of_nat (i + Suc m))) count" using Cons.prems(3) by blast
      then show "js_lt (Fin (of_nat (i + 1 + m))) count" by simp
    qed
    have b: "\<forall>m. 0 < m \<and> m < length rs' \<longrightarrow> \<not> maxC \<le> of_nat (consecutive ?ct (take m rs'))"
    proof (intro allI impI)
      fix m assume "0 < m \<and> m < length rs'"
      then have "0 < Suc m \<and> Suc m < length rs" using rs by simp
      then have "\<not> maxC \<le> of_nat (consecutive ct (take (Suc m) rs))"
        using Cons.prems(4) by blast
      then show "\<not> maxC \<le> of_nat (consecutive ?ct (take m rs'))" using rs by simp
    qed
    have c: "maxC \<le> of_nat (consecutive ?ct rs')" using Cons.prems(5) rs by simp
    have "rtt_loop command count maxC (i + 1) ?ct (res @ [mk_entry i r]) (es @ rest) =
            Some (Inr ((res @ [mk_entry i r]) @ entries (i + 1) rs' @
                       [Note (abort_note (consecutive ?ct rs'))]))"
      by (rule Cons.IH[OF s(2) False a b c])
    then show ?thesis using s lt nb rs by (simp add: Let_def)
  qed
qed

lemma rtt_loop_completes:
  assumes "resolve_with command es rs"
    "\<forall>m < length rs. js_lt (Fin (of_nat (i + m))) count"
    "\<not> js_lt (Fin (of_nat (i + length rs))) count"
    "\<forall>m. 0 < m \<and> m \<le> length rs \<longrightarrow> \<not> maxC \<le> of_nat (consecutive ct (take m rs))"
  shows "rtt_loop command count maxC i ct res (es @ rest) = Some (Inr (res @ entries i rs))"
  using assms
proof (induction es arbitrary: rs i ct res)
  case Nil
  then have "rs = []" by (simp add: resolve_with_def)
  then show ?case using Nil.prems(3) by (cases rest) simp_all
next
  case (Cons e es)
  then obtain r rs' where rs: "rs = r # rs'"
    by (cases rs) (auto simp: resolve_with_def)
  have s: "sendCommandOnceOnSocket e command = Resolved r" "resolve_with command es rs'"
    using Cons.prems(1) rs by (simp_all add: resolve_with_Cons)
  have lt: "js_lt (Fin (of_nat i)) count"
    using Cons.prems(2) rs by auto
  let ?ct = "if timeout r then ct + 1 else 0"
  have "\<not> maxC \<le> of_nat (consecutive ct (take 1 rs))"
    using Cons.prems(4) rs by (simp del: take_Suc_Cons One_nat_def)
  then have nb: "\<not> maxC \<le> of_nat ?ct" using rs by simp
  have a: "\<forall>m < length rs'. js_lt (Fin (of_nat (i + 1 + m))) count"
  proof (intro allI impI)
    fix m assume "m < length rs'"
    then have "Suc m < length rs" using rs by simp
    then have "js_lt (Fin (of_nat (i + Suc m))) count" using Cons.prems(2) by blast
    then show "js_lt (Fin (of_nat (i + 1 + m))) count" by simp
  qed
  have a': "\<not> js_lt (Fin (of_nat (i + 1 + length rs'))) count"
    using Cons.prems(3) rs by simp
  have b: "\<forall>m. 0 < m \<and> m \<le> length rs' \<longrightarrow> \<not> maxC \<le> of_nat (consecutive ?ct (take m rs'))"
  proof (intro allI impI)
    fix m assume "0 < m \<and> m \<le> length rs'"
    then have "0 < Suc m \<and> Suc m \<le> length rs" using rs by simp
    then have "\<not> maxC \<le> of_nat (consecutive ct (take (Suc m) rs))"
      using Cons.prems(4) by blast
    then show "\<not> maxC \<le> of_nat (consecutive ?ct (take m rs'))" using rs by simp
  qed
  have "rtt_loop command count maxC (i + 1) ?ct (res @ [mk_entry i r]) (es @ rest) =
          Some (Inr ((res @ [mk_entry i r]) @ entries (i + 1) rs'))"
    by (rule Cons.IH[OF s(2) a a' b])
  then show ?case using s lt nb rs by (simp add: Let_def)
qed

lemma rtt_loop_shape:
  assumes "rtt_loop command count maxC i ct res envs = Some (Inr out)"
  shows "\<exists>rs tl. length rs \<le> length envs \<and> resolve_with command (take (length rs) envs) rs \<and>
                 out = res @ entries i rs @ tl \<and> (tl = [] \<or> (\<exists>n. tl = [Note n]))"
  using assms
proof (induction envs arbitrary: i ct res)
  case Nil
  then have "out = res" by (simp split: if_splits)
  then show ?case
    by (intro exI[of _ "[]"]) (simp add: resolve_with_def)
next
  case (Cons e es)
  show ?case
  proof (cases "js_lt (Fin (of_nat i)) count")
    case False
    then have "out = res" using Cons.prems by simp
    then show ?thesis by (intro exI[of _ "[]"]) (simp add: resolve_with_def)
  next
    case True
    then obtain r where r: "sendCommandOnceOnSocket e command = Resolved r"
      using Cons.prems by (cases "sendCommandOnceOnSocket e command") simp_all
    let ?ct = "if timeout r then ct + 1 else 0"
    show ?thesis
    proof (cases "maxC \<le> of_nat ?ct")
      case ab: True
      then have "out = res @ entries i [r] @ [Note (abort_note ?ct)]"
        using Cons.prems True r by (simp add: Let_def)
      then show ?thesis
        by (intro exI[of _ "[r]"] exI[of _ "[Note (abort_note ?ct)]"])
           (simp add: resolve_with_def r)
    next
      case nb: False
      then have "rtt_loop command count maxC (i + 1) ?ct (res @ [mk_entry i r]) es = Some (Inr out)"
        using Cons.prems True r by (simp add: Let_def)
      from Cons.IH[OF this] obtain rs tl where
        h: "length rs \<le> length es" "resolve_with command (take (length rs) es) rs"
           "out = (res @ [mk_entry i r]) @ entries (i + 1) rs @ tl"
           "tl = [] \<or> (\<exists>n. tl = [Note n])"
        by blast
      show ?thesis
        by (intro exI[of _ "r # rs"] exI[of _ tl]) (use h r in \<open>simp add: resolve_with_Cons\<close>)
    qed
  qed
qed

lemma throughput_loop_aborts:
  assumes "resolve_with command (map snd tr) rs" "rs \<noteq> []"
    "\<forall>m < length rs. js_lt (Fin (of_int (fst (tr ! m)))) endAt"
    "\<forall>m. 0 < m \<and> m < length rs \<longrightarrow> \<not> maxC \<le> of_nat (consecutive ct (take m rs))"
    "maxC \<le> of_nat (consecutive ct rs)"
  shows "throughput_loop command endAt maxC tb q ct (tr @ rest) =
           Some (Inr (tb + sum_list (map bytes rs), q + length rs))"
  using assms
proof (induction tr arbitrary: rs tb q ct)
  case Nil
  then show ?case by (simp add: resolve_with_def)
next
  case (Cons t tr)
  obtain now e where t: "t = (now, e)" by (cases t)
  from Cons.prems(1) obtain r rs' where rs: "rs = r # rs'"
    by (cases rs) (auto simp: resolve_with_def)
  have s: "sendCommandOnceOnSocket e command = Resolved r" "resolve_with command (map snd tr) rs'"
    using Cons.prems(1) rs t by (simp_all add: resolve_with_Cons)
  have lt: "js_lt (Fin (of_int now)) endAt"
    using Cons.prems(3) rs t by auto
  let ?ct = "if timeout r then ct + 1 else 0"
  show ?case
  proof (cases "rs' = []")
    case True
    then have "maxC \<le> of_nat ?ct" using Cons.prems(5) rs by simp
    then show ?thesis using s lt rs True t by (simp add: Let_def)
  next
    case False
    have "\<not> maxC \<le> of_nat (consecutive ct (take 1 rs))"
      using Cons.prems(4) False rs by (simp del: take_Suc_Cons One_nat_def)
    then have nb: "\<not> maxC \<le> of_nat ?ct" using rs by simp
    have a: "\<forall>m < length rs'. js_lt (Fin (of_int (fst (tr ! m)))) endAt"
    proof (intro allI impI)
      fix m assume "m < length rs'"
      then have "Suc m < length rs" using rs by simp
      then have "js_lt (Fin (of_int (fst ((t # tr) ! Suc m)))) endAt" using Cons.prems(3) by blast
      then show "js_lt (Fin (of_int (fst (tr ! m)))) endAt" by simp
    qed
    have b: "\<forall>m. 0 < m \<and> m < length rs' \<longrightarrow> \<not> maxC \<le> of_nat (consecutive ?ct (take m rs'))"
    proof (intro allI impI)
      fix m assume "0 < m \<and> m < length rs'"
      then have "0 < Suc m \<and> Suc m < length rs" using rs by simp
      then have "\<not> maxC \<le> of_nat (consecutive ct (take (Suc m) rs))"
        using Cons.prems(4) by blast
      then show "\<not> maxC \<le> of_nat (consecutive ?ct (take m rs'))" using rs by simp
    qed
    have c: "maxC \<le> of_nat (consecutive ?ct rs')" using Cons.prems(5) rs by simp
    have "throughput_loop command endAt maxC (tb + bytes r) (q + 1) ?ct (tr @ rest) =
            Some (Inr ((tb + bytes r) + sum_list (map bytes rs'), (q + 1) + length rs'))"
      by (rule Cons.IH[OF s(2) False a b c])
    then show ?thesis using s lt nb rs t by (simp add: Let_def)
  qed
qed

lemma throughput_loop_completes:
  assumes "resolve_with command (map snd tr) rs"
    "\<forall>m < length rs. js_lt (Fin (of_int (fst (tr ! m)))) endAt"
    "\<forall>m. 0 < m \<and> m \<le> length rs \<longrightarrow> \<not> maxC \<le> of_nat (consecutive ct (take m rs))"
    "\<not> js_lt (Fin (of_int now)) endAt"
  shows "throughput_loop command endAt maxC tb q ct (tr @ (now, e) # rest) =
           Some (Inr (tb + sum_list (map bytes rs), q + length rs))"
  using assms
proof (induction tr arbitrary: rs tb q ct)
  case Nil
  then have "rs = []" by (simp add: resolve_with_def)
  then show ?case using Nil.prems(4) by simp
next
  case (Cons t tr)
  obtain now' e' where t: "t = (now', e')" by (cases t)
  from Cons.prems(1) obtain r rs' where rs: "rs = r # rs'"
    by (cases rs) (auto simp: resolve_with_def)
  have s: "sendCommandOnceOnSocket e' command = Resolved r" "resolve_with command (map snd tr) rs'"
    using Cons.prems(1) rs t by (simp_all add: resolve_with_Cons)
  have lt: "js_lt (Fin (of_int now')) endAt"
    using Cons.prems(2) rs t by auto
  let ?ct = "if timeout r then ct + 1 else 0"
  have "\<not> maxC \<le> of_nat (consecutive ct (take 1 rs))"
    using Cons.prems(3) rs by (simp del: take_Suc_Cons One_nat_def)
  then have nb: "\<not> maxC \<le> of_nat ?ct" using rs by simp
  have a: "\<forall>m < length rs'. js_lt (Fin (of_int (fst (tr ! m)))) endAt"
  proof (intro allI impI)
    fix m assume "m < length rs'"
    then have "Suc m < length rs" using rs by simp
    then have "js_lt (Fin (of_int (fst ((t # tr) ! Suc m)))) endAt" using Cons.prems(2) by blast
    then show "js_lt (Fin (of_int (fst (tr ! m)))) endAt" by simp
  qed
  have b: "\<forall>m. 0 < m \<and> m \<le> length rs' \<longrightarrow> \<not> maxC \<le> of_nat (consecutive ?ct (take m rs'))"
  proof (intro allI impI)
    fix m assume "0 < m \<and> m \<le> length rs'"
    then have "0 < Suc m \<and> Suc m \<le> length rs" using rs by simp
    then have "\<not> maxC \<le> of_nat (consecutive ct (take (Suc m) rs))"
      using Cons.prems(3) by blast
    then show "\<not> maxC \<le> of_nat (consecutive ?ct (take m rs'))" using rs by simp
  qed
  have "throughput_loop command endAt maxC (tb + bytes r) (q + 1) ?ct (tr @ (now, e) # rest) =
          Some (Inr ((tb + bytes r) + sum_list (map bytes rs'), (q + 1) + length rs'))"
    by (rule Cons.IH[OF s(2) a b Cons.prems(4)])
  then show ?case using s lt nb rs t by (simp add: Let_def)
qed

lemma throughput_loop_shape:
  assumes "throughput_loop command endAt maxC tb q ct tr = Some (Inr (tb', q'))"
  shows "\<exists>rs. length rs \<le> length tr \<and>
              resolve_with command (map snd (take (length rs) tr)) rs \<and>
              tb' = tb + sum_list (map bytes rs) \<and> q' = q + length rs"
  using assms
proof (induction tr arbitrary: tb q ct)
  case Nil
  then show ?case by simp
next
  case (Cons t tr)
  obtain now e where t: "t = (now, e)" by (cases t)
  show ?case
  proof (cases "js_lt (Fin (of_int now)) endAt")
    case False
    then have "tb' = tb \<and> q' = q" using Cons.prems t by simp
    then show ?thesis by (intro exI[of _ "[]"]) (simp add: resolve_with_def)
  next
    case True
    then obtain r where r: "sendCommandOnceOnSocket e command = Resolved r"
      using Cons.prems t by (cases "sendCommandOnceOnSocket e command") simp_all
    let ?ct = "if timeout r then ct + 1 else 0"
    show ?thesis
    proof (cases "maxC \<le> of_nat ?ct")
      case ab: True
      then have "tb' = tb + bytes r \<and> q' = q + 1"
        using Cons.prems True r t by (simp add: Let_def)
      then show ?thesis
        by (intro exI[of _ "[r]"]) (simp add: resolve_with_def r t)
    next
      case nb: False
      then have "throughput_loop command endAt maxC (tb + bytes r) (q + 1) ?ct tr =
                   Some (Inr (tb', q'))"
        using Cons.prems True r t by (simp add: Let_def)
      from Cons.IH[OF this] obtain rs where
        h: "length rs \<le> length tr" "resolve_with command (map snd (take (length rs) tr)) rs"
           "tb' = (tb + bytes r) + sum_list (map bytes rs)" "q' = (q + 1) + length rs"
        by blast
      show ?thesis
        by (intro exI[of _ "r # rs"]) (use h r t in \<open>simp add: resolve_with_Cons\<close>)
    qed
  qed
qed

lemma silent_result:
  "sendCommandOnceOnSocket silent (JStr command) =
     Resolved \<lparr>raw = [], rtt_ms = None, bytes = 0, timeout = True, error = None\<rparr>"
  using timeout_result[of silent command] by (simp add: silent_def trim_Nil)

lemma dec_digit: "n < 10 \<Longrightarrow> dec n = [char_of (48 + n)]"
  by (simp add: dec.simps)

lemma abort_note_3: "abort_note (Suc (Suc (Suc 0))) = ''Aborted after 3 consecutive timeouts.''"
  by (simp add: abort_note_def dec_digit char_of_eq_iff)

lemma to_double_small: "\<bar>v\<bar> \<le> 2 ^ 64 \<Longrightarrow> to_double v = Fin v"
proof -
  assume a: "\<bar>v\<bar> \<le> 2 ^ 64"
  have "(2::rat) ^ 64 < 2 ^ 1024 - 2 ^ 970" by simp
  then have "v < 2 ^ 1024 - 2 ^ 970" "- (2 ^ 1024 - 2 ^ 970) < v" using a by linarith+
  then show ?thesis by (simp add: to_double_def)
qed

lemma lower_throughput: "toLowerCase ''throughput'' = ''throughput''"
  by (simp add: toLowerCase_def)

section \<open>Statistics of the latency mode\<close>

lemma successes_entries: "map rtt_num (successes (entries i rs)) = counted_rtts rs"
proof (induction rs arbitrary: i)
  case Nil
  then show ?case by (simp add: successes_def counted_rtts_def map_filter_simps)
next
  case (Cons r rs)
  have "map rtt_num (successes (entries (i + 1) rs)) = counted_rtts rs"
    by (rule Cons.IH)
  then show ?case
    by (cases "rtt_ms r")
       (auto simp: successes_def counted_rtts_def map_filter_simps mk_entry_def)
qed

lemma successes_append_note:
  "nt = [] \<or> (\<exists>n. nt = [Note n]) \<Longrightarrow> successes (xs @ nt) = successes xs"
  by (auto simp: successes_def)

lemma bytes_entries: "sum_list (map bytes_num (entries i rs)) = sum_list (map bytes rs)"
  by (induction rs arbitrary: i) (simp_all add: mk_entry_def)

lemma bytes_append_note:
  "nt = [] \<or> (\<exists>n. nt = [Note n]) \<Longrightarrow>
   sum_list (map bytes_num (xs @ nt)) = sum_list (map bytes_num xs)"
  by auto

lemma list_min_Min: "list_min xs = (if xs = [] then None else Some (Min (set xs)))"
proof (cases xs)
  case Nil
  then show ?thesis by simp
next
  case (Cons a as)
  have "Min (set (a # as)) = fold min as a" by (rule Min.set_eq_fold)
  then show ?thesis using Cons by (simp del: set_simps)
qed

lemma list_max_Max: "list_max xs = (if xs = [] then None else Some (Max (set xs)))"
proof (cases xs)
  case Nil
  then show ?thesis by simp
next
  case (Cons a as)
  have "Max (set (a # as)) = fold max as a" by (rule Max.set_eq_fold)
  then show ?thesis using Cons by (simp del: set_simps)
qed

lemma counted_rtts_filter:
  "counted_rtts rs =
     map (\<lambda>r. the (rtt_ms r)) (filter (\<lambda>r. \<not> timeout r \<and> rtt_ms r \<noteq> None) rs)"
  by (induction rs) (auto simp: counted_rtts_def map_filter_simps)

lemma statistics_of_results:
  assumes "nt = [] \<or> (\<exists>n. nt = [Note n])"
  shows "rtt_statistics (entries i rs @ nt) =
           \<lparr>avg_ms = (if counted_rtts rs = [] then None
                      else Some (of_int (sum_list (counted_rtts rs)) /
                                 of_nat (length (counted_rtts rs)))),
            min_ms = (if counted_rtts rs = [] then None else Some (Min (set (counted_rtts rs)))),
            max_ms = (if counted_rtts rs = [] then None else Some (Max (set (counted_rtts rs)))),
            ops_per_sec =
              (if counted_rtts rs = [] \<or> sum_list (counted_rtts rs) = 0 then None
               else Some (1000 / (of_int (sum_list (counted_rtts rs)) /
                                  of_nat (length (counted_rtts rs))))),
            total_bytes = sum_list (map bytes rs)\<rparr>"
proof -
  let ?ok = "successes (entries i rs @ nt)"
  have m: "map rtt_num ?ok = counted_rtts rs"
    using successes_append_note[OF assms] successes_entries by simp
  then have e: "?ok = [] \<longleftrightarrow> counted_rtts rs = []"
    by (metis map_is_Nil_conv)
  have l: "length ?ok = length (counted_rtts rs)"
    using m by (metis length_map)
  have b: "sum_list (map bytes_num (entries i rs @ nt)) = sum_list (map bytes rs)"
    using bytes_append_note[OF assms] bytes_entries by simp
  have z: "counted_rtts rs \<noteq> [] \<Longrightarrow>
           (rat_of_int (sum_list (counted_rtts rs)) / rat_of_nat (length (counted_rtts rs)) = 0) =
           (sum_list (counted_rtts rs) = 0)"
    by simp
  show ?thesis
    unfolding rtt_statistics_def Let_def m e l b list_min_Min list_max_Max
    using z by auto
qed

lemma rtt_mode_report:
  assumes "rtt_mode ns b envs = Some (RttReport rep)"
  shows "\<exists>rs nt. length rs \<le> length envs \<and>
                 resolve_with (cfg_command b) (take (length rs) envs) rs \<and>
                 results rep = entries 0 rs @ nt \<and> (nt = [] \<or> (\<exists>n. nt = [Note n])) \<and>
                 stats rep = rtt_statistics (results rep)"
proof -
  obtain out where
    l: "rtt_loop (cfg_command b) (cfg_count ns b) (cfg_maxConsecutiveTimeouts b) 0 0 [] envs =
          Some (Inr out)"
    and r: "results rep = out" "stats rep = rtt_statistics out"
    using assms
    by (auto simp: rtt_mode_def Let_def split: option.splits sum.splits)
  from rtt_loop_shape[OF l] r show ?thesis by auto
qed

text \<open>
  C5. For every latency-mode run that answers with a report, let \<open>rs\<close> be the results
  of the iterations it made (the report lists them in order, possibly followed by the
  abort note). Then \<open>avg_ms\<close>, \<open>min_ms\<close> and \<open>max_ms\<close> are the mean, the least and the
  greatest \<open>rtt_ms\<close> over exactly the results with \<open>timeout\<close> unset and a numeric
  \<open>rtt_ms\<close> (\<open>null\<close> when there is none), so timed-out iterations are left out, while
  \<open>total_bytes\<close> is the sum of \<open>bytes\<close> over all of \<open>rs\<close>, the timed-out ones included.
\<close>

theorem latency_statistics:
  assumes "rtt_mode ns b envs = Some (RttReport rep)"
  shows "\<exists>rs. length rs \<le> length envs \<and>
              resolve_with (cfg_command b) (take (length rs) envs) rs \<and>
              (results rep = entries 0 rs \<or> (\<exists>n. results rep = entries 0 rs @ [Note n])) \<and>
              counted_rtts rs =
                map (\<lambda>r. the (rtt_ms r)) (filter (\<lambda>r. \<not> timeout r \<and> rtt_ms r \<noteq> None) rs) \<and>
              avg_ms (stats rep) =
                (if counted_rtts rs = [] then None
                 else Some (of_int (sum_list (counted_rtts rs)) /
                            of_nat (length (counted_rtts rs)))) \<and>
              min_ms (stats rep) =
                (if counted_rtts rs = [] then None else Some (Min (set (counted_rtts rs)))) \<and>
              max_ms (stats rep) =
                (if counted_rtts rs = [] then None else Some (Max (set (counted_rtts rs)))) \<and>
              total_bytes (stats rep) = sum_list (map bytes rs)"
proof -
  from rtt_mode_report[OF assms] obtain rs nt where
    h: "length rs \<le> length envs" "resolve_with (cfg_command b) (take (length rs) envs) rs"
       "results rep = entries 0 rs @ nt" "nt = [] \<or> (\<exists>n. nt = [Note n])"
       "stats rep = rtt_statistics (results rep)"
    by blast
  have s: "stats rep = rtt_statistics (entries 0 rs @ nt)"
    using h(3,5) by simp
  have "results rep = entries 0 rs \<or> (\<exists>n. results rep = entries 0 rs @ [Note n])"
    using h(3,4) by auto
  then show ?thesis
    using h(1,2) counted_rtts_filter[of rs]
    unfolding s statistics_of_results[OF h(4)]
    by (intro exI[of _ rs]) simp
qed

text \<open>
  C6 (amended). For every latency-mode run that answers with a report, \<open>ops_per_sec\<close>
  is \<open>1000 / avg_ms\<close> when \<open>avg_ms\<close> is defined and not zero, and \<open>null\<close> otherwise, that
  is when no iteration counts as a success or when \<open>avg_ms\<close> is 0; \<open>avg_ms\<close> is defined
  exactly when at least one iteration counts as a success.
\<close>

theorem ops_per_sec_of_average:
  assumes "rtt_mode ns b envs = Some (RttReport rep)"
  shows "ops_per_sec (stats rep) =
           (case avg_ms (stats rep) of
              None \<Rightarrow> None
            | Some a \<Rightarrow> if a = 0 then None else Some (1000 / a)) \<and>
         (avg_ms (stats rep) = None \<longleftrightarrow> successes (results rep) = [])"
proof -
  from rtt_mode_report[OF assms] have "stats rep = rtt_statistics (results rep)"
    by blast
  then show ?thesis
    by (simp add: rtt_statistics_def Let_def)
qed

lemma reply_10:
  "sendCommandOnceOnSocket (answering (''1.0'' @ [LF]) t) (JStr command) =
     Resolved \<lparr>raw = ''1.0'', rtt_ms = Some t, bytes = 4, timeout = False, error = None\<rparr>"
  using answering_result[of "''1.0'' @ [LF]" t command]
  by (simp add: trim_reply[simplified])

lemma print_nat_digit: "print_nat (of_nat n) = dec n"
  by (simp add: print_nat_def)

lemma parseInt10_digit:
  "n < 10 \<Longrightarrow> parseInt10 [char_of (48 + n)] = Fin (of_nat n)"
proof -
  assume n: "n < 10"
  have o: "of_char (char_of (48 + n)) = 48 + n" using n by simp
  have w: "\<not> ws1 (char_of (48 + n))" using n by (auto simp: ws1_def o)
  have d: "is_digit (char_of (48 + n))" using n by (simp add: is_digit_def o)
  have s: "char_of (48 + n) \<noteq> CHR ''-''" "char_of (48 + n) \<noteq> CHR ''+''"
    using n by (auto simp: char_of_eq_iff take_bit_eq_mod)
  have v: "digits_val [char_of (48 + n)] = n"
    by (simp add: digits_val_def digit_val_def o del: of_char_of)
  have "to_double (of_nat n) = Fin (of_nat n)"
    using n by (intro to_double_small) simp
  then show ?thesis
    by (simp add: parseInt10_def w d s v del: of_char_of)
qed

lemma cfg_count_digit:
  "0 < n \<Longrightarrow> n < 10 \<Longrightarrow>
   cfg_count print_nat (with_fields [(''count'', JNum (Fin (of_nat n)))]) = Fin (of_nat n)"
  using parseInt10_digit[of n]
  by (simp add: cfg_count_def js_or_def print_nat_digit dec_digit)

lemma example_run:
  "rtt_mode print_nat (with_fields [(''count'', JNum (Fin 5))])
     [answering (''1.0'' @ [LF]) 10, silent, answering (''1.0'' @ [LF]) 20, silent,
      answering (''1.0'' @ [LF]) 30] =
   Some (RttReport
     \<lparr>rtt_command = JStr ''MEAS:VOLT?'', countRequested = Fin 5, rtt_minDelayMs = 10,
      stats = \<lparr>avg_ms = Some 20, min_ms = Some 10, max_ms = Some 30, ops_per_sec = Some 50,
               total_bytes = 12\<rparr>,
      results = [Iter 1 ''1.0'' (Some 10) 4 False None, Iter 2 [] None 0 True None,
                 Iter 3 ''1.0'' (Some 20) 4 False None, Iter 4 [] None 0 True None,
                 Iter 5 ''1.0'' (Some 30) 4 False None]\<rparr>)"
proof -
  let ?b = "with_fields [(''count'', JNum (Fin 5))]"
  have c: "cfg_count print_nat ?b = Fin 5"
    using cfg_count_digit[of 5] by simp
  have x: "cfg_command ?b = JStr ''MEAS:VOLT?''" "cfg_maxConsecutiveTimeouts ?b = 5"
    "cfg_minDelayMs ?b = 10"
    by (simp_all add: cfg_command_def js_or_def cfg_maxConsecutiveTimeouts_def cfg_minDelayMs_def
        no_fields_def)
  have l: "rtt_loop (JStr ''MEAS:VOLT?'') (Fin 5) 5 0 0 []
             [answering (''1.0'' @ [LF]) 10, silent, answering (''1.0'' @ [LF]) 20, silent,
              answering (''1.0'' @ [LF]) 30] =
           Some (Inr [Iter 1 ''1.0'' (Some 10) 4 False None, Iter 2 [] None 0 True None,
                 Iter 3 ''1.0'' (Some 20) 4 False None, Iter 4 [] None 0 True None,
                 Iter 5 ''1.0'' (Some 30) 4 False None])"
    by (simp add: reply_10[simplified] silent_result mk_entry_def error_or_null_def
        eval_nat_numeral)
  have st: "rtt_statistics [Iter 1 ''1.0'' (Some 10) 4 False None, Iter 2 [] None 0 True None,
                 Iter 3 ''1.0'' (Some 20) 4 False None, Iter 4 [] None 0 True None,
                 Iter 5 ''1.0'' (Some 30) 4 False None] =
            \<lparr>avg_ms = Some 20, min_ms = Some 10, max_ms = Some 30, ops_per_sec = Some 50,
               total_bytes = 12\<rparr>"
    by (simp add: rtt_statistics_def successes_def Let_def)
  show ?thesis
    unfolding rtt_mode_def Let_def c x l option.case sum.case st by simp
qed

text \<open>
  The statement of C6 fails at \<open>avg_ms = 0\<close>: one iteration answered within the same
  millisecond gives \<open>avg_ms = 0\<close>, which is defined, and \<open>ops_per_sec = null\<close>.
\<close>

theorem ops_per_sec_claim_counterexample:
  "rtt_mode print_nat (with_fields [(''count'', JNum (Fin 1))]) [answering (''1.0'' @ [LF]) 0] =
   Some (RttReport
     \<lparr>rtt_command = JStr ''MEAS:VOLT?'', countRequested = Fin 1, rtt_minDelayMs = 10,
      stats = \<lparr>avg_ms = Some 0, min_ms = Some 0, max_ms = Some 0, ops_per_sec = None,
               total_bytes = 4\<rparr>,
      results = [Iter 1 ''1.0'' (Some 0) 4 False None]\<rparr>)"
proof -
  let ?b = "with_fields [(''count'', JNum (Fin 1))]"
  have c: "cfg_count print_nat ?b = Fin 1"
    using cfg_count_digit[of 1] by simp
  have x: "cfg_command ?b = JStr ''MEAS:VOLT?''" "cfg_maxConsecutiveTimeouts ?b = 5"
    "cfg_minDelayMs ?b = 10"
    by (simp_all add: cfg_command_def js_or_def cfg_maxConsecutiveTimeouts_def cfg_minDelayMs_def
        no_fields_def)
  have l: "rtt_loop (JStr ''MEAS:VOLT?'') (Fin 1) 5 0 0 [] [answering (''1.0'' @ [LF]) 0] =
           Some (Inr [Iter 1 ''1.0'' (Some 0) 4 False None])"
    by (simp add: reply_10[simplified] mk_entry_def error_or_null_def)
  have st: "rtt_statistics [Iter 1 ''1.0'' (Some 0) 4 False None] =
            \<lparr>avg_ms = Some 0, min_ms = Some 0, max_ms = Some 0, ops_per_sec = None,
               total_bytes = 4\<rparr>"
    by (simp add: rtt_statistics_def successes_def Let_def)
  show ?thesis
    unfolding rtt_mode_def Let_def c x l option.case sum.case st by simp
qed

theorem latency_statistics_witness:
  "\<exists>rep rs.
     rtt_mode print_nat (with_fields [(''count'', JNum (Fin 5))])
       [answering (''1.0'' @ [LF]) 10, silent, answering (''1.0'' @ [LF]) 20, silent,
        answering (''1.0'' @ [LF]) 30] = Some (RttReport rep) \<and>
     avg_ms (stats rep) = Some 20 \<and> min_ms (stats rep) = Some 10 \<and>
     max_ms (stats rep) = Some 30 \<and> total_bytes (stats rep) = 12 \<and>
     avg_ms (stats rep) =
       (if counted_rtts rs = [] then None
        else Some (of_int (sum_list (counted_rtts rs)) / of_nat (length (counted_rtts rs)))) \<and>
     min_ms (stats rep) =
       (if counted_rtts rs = [] then None else Some (Min (set (counted_rtts rs)))) \<and>
     max_ms (stats rep) =
       (if counted_rtts rs = [] then None else Some (Max (set (counted_rtts rs)))) \<and>
     total_bytes (stats rep) = sum_list (map bytes rs)"
proof -
  let ?rep = "\<lparr>rtt_command = JStr ''MEAS:VOLT?'', countRequested = Fin 5, rtt_minDelayMs = 10,
      stats = \<lparr>avg_ms = Some 20, min_ms = Some 10, max_ms = Some 30, ops_per_sec = Some 50,
               total_bytes = 12\<rparr>,
      results = [Iter 1 ''1.0'' (Some 10) 4 False None, Iter 2 [] None 0 True None,
                 Iter 3 ''1.0'' (Some 20) 4 False None, Iter 4 [] None 0 True None,
                 Iter 5 ''1.0'' (Some 30) 4 False None]\<rparr>"
  from latency_statistics[OF example_run] obtain rs where
    h: "avg_ms (stats ?rep) =
          (if counted_rtts rs = [] then None
           else Some (of_int (sum_list (counted_rtts rs)) / of_nat (length (counted_rtts rs))))"
       "min_ms (stats ?rep) =
          (if counted_rtts rs = [] then None else Some (Min (set (counted_rtts rs))))"
       "max_ms (stats ?rep) =
          (if counted_rtts rs = [] then None else Some (Max (set (counted_rtts rs))))"
       "total_bytes (stats ?rep) = sum_list (map bytes rs)"
    by blast
  have v: "avg_ms (stats ?rep) = Some 20" "min_ms (stats ?rep) = Some 10"
    "max_ms (stats ?rep) = Some 30" "total_bytes (stats ?rep) = 12"
    by simp_all
  show ?thesis
    using example_run v h by (intro exI[of _ ?rep] exI[of _ rs] conjI)
qed

theorem ops_per_sec_of_average_witness:
  "\<exists>rep.
     rtt_mode print_nat (with_fields [(''count'', JNum (Fin 5))])
       [answering (''1.0'' @ [LF]) 10, silent, answering (''1.0'' @ [LF]) 20, silent,
        answering (''1.0'' @ [LF]) 30] = Some (RttReport rep) \<and>
     avg_ms (stats rep) = Some 20 \<and> ops_per_sec (stats rep) = Some (1000 / 20)"
proof -
  let ?rep = "\<lparr>rtt_command = JStr ''MEAS:VOLT?'', countRequested = Fin 5, rtt_minDelayMs = 10,
      stats = \<lparr>avg_ms = Some 20, min_ms = Some 10, max_ms = Some 30, ops_per_sec = Some 50,
               total_bytes = 12\<rparr>,
      results = [Iter 1 ''1.0'' (Some 10) 4 False None, Iter 2 [] None 0 True None,
                 Iter 3 ''1.0'' (Some 20) 4 False None, Iter 4 [] None 0 True None,
                 Iter 5 ''1.0'' (Some 30) 4 False None]\<rparr>"
  have a: "avg_ms (stats ?rep) = Some 20" by simp
  from ops_per_sec_of_average[OF example_run] have
    "ops_per_sec (stats ?rep) =
       (case avg_ms (stats ?rep) of None \<Rightarrow> None
        | Some a \<Rightarrow> if a = 0 then None else Some (1000 / a))"
    by blast
  then have "ops_per_sec (stats ?rep) = Some (1000 / 20)"
    unfolding a by simp
  with example_run a show ?thesis
    by (intro exI[of _ ?rep] conjI)
qed

section \<open>Statistics of the throughput mode\<close>

text \<open>
  C7. For every throughput-mode run that answers with a report and whose clock has
  advanced between its start and its end (by at least a millisecond; the grace pause
  alone lasts 120), \<open>durationMeasuredSec\<close> is the elapsed time \<open>(endNow - startTime) / 1000\<close>
  and not the requested duration, \<open>mb_per_s\<close> is \<open>(total_bytes / 1048576)\<close> divided by it
  and \<open>ops_per_sec\<close> is \<open>queriesSent\<close> divided by it, where \<open>total_bytes\<close> and \<open>queriesSent\<close>
  are the sum of \<open>bytes\<close> over the calls made and their number.
\<close>

theorem throughput_statistics:
  assumes "throughput_mode ns b env = Some (ThroughputReport rep)"
    and "startTime env < endNow env"
  shows "durationMeasuredSec rep = of_int (endNow env - startTime env) / 1000 \<and>
         mb_per_s rep = (of_nat (thr_total_bytes rep) / 1048576) / durationMeasuredSec rep \<and>
         thr_ops_per_sec rep = of_nat (queriesSent rep) / durationMeasuredSec rep \<and>
         (\<exists>rs. length rs \<le> length (ticks env) \<and>
               resolve_with (cfg_command b) (map snd (take (length rs) (ticks env))) rs \<and>
               thr_total_bytes rep = sum_list (map bytes rs) \<and>
               queriesSent rep = length rs)"
proof -
  let ?endAt = "js_add (Fin (of_int (startTime env))) (js_scale (cfg_durationSec ns b) 1000)"
  let ?sec = "max (1 / 1000) (rat_of_int (endNow env - startTime env) / 1000)"
  obtain tb q where
    l: "throughput_loop (cfg_command b) ?endAt (cfg_maxConsecutiveTimeouts b) 0 0 0 (ticks env) =
          Some (Inr (tb, q))"
    and r: "durationMeasuredSec rep = ?sec" "thr_total_bytes rep = tb" "queriesSent rep = q"
      "mb_per_s rep = (of_nat tb / (1024 * 1024)) / ?sec"
      "thr_ops_per_sec rep = of_nat q / ?sec"
    using assms(1)
    by (auto simp: throughput_mode_def Let_def split: option.splits sum.splits prod.splits)
  have "1 \<le> endNow env - startTime env" using assms(2) by simp
  then have "(1::rat) \<le> of_int (endNow env - startTime env)"
    by (metis of_int_1_le_iff)
  then have s: "?sec = of_int (endNow env - startTime env) / 1000"
    by (simp add: max_def)
  from throughput_loop_shape[OF l] obtain rs where
    h: "length rs \<le> length (ticks env)"
       "resolve_with (cfg_command b) (map snd (take (length rs) (ticks env))) rs"
       "tb = sum_list (map bytes rs)" "q = length rs"
    by auto
  have k: "(1024::rat) * 1024 = 1048576" by simp
  have d: "durationMeasuredSec rep = of_int (endNow env - startTime env) / 1000"
    by (simp only: r(1) s)
  have m: "mb_per_s rep = (of_nat (thr_total_bytes rep) / 1048576) / durationMeasuredSec rep"
    by (simp only: r(1,2,4) k)
  have p: "thr_ops_per_sec rep = of_nat (queriesSent rep) / durationMeasuredSec rep"
    by (simp only: r(1,3,5))
  have e: "thr_total_bytes rep = sum_list (map bytes rs)" "queriesSent rep = length rs"
    using r(2,3) h(3,4) by simp_all
  show ?thesis
    using d m p h(1,2) e by (intro conjI exI[of _ rs])
qed

lemma throughput_example:
  "throughput_mode print_nat (with_fields [])
     \<lparr>calls = [], startTime = 0,
      ticks = [(0, answering (''1.0'' @ [LF]) 5), (20, answering (''1.0'' @ [LF]) 5),
               (5000, silent)],
      endNow = 5125\<rparr> =
   Some (ThroughputReport
           \<lparr>thr_command = JStr ''MEAS:VOLT?'', durationRequestedSec = Fin 5,
            durationMeasuredSec = 5125 / 1000, thr_minDelayMs = 10,
            thr_perCmdTimeoutMs = 3000, thr_maxConsecutiveTimeouts = 5, queriesSent = 2,
            thr_total_bytes = 8, megabytes = 8 / 1048576,
            mb_per_s = (8 / 1048576) / (5125 / 1000), thr_ops_per_sec = 2 / (5125 / 1000),
            thr_note = throughput_note\<rparr>)"
proof -
  let ?b = "with_fields []"
  have c: "cfg_command ?b = JStr ''MEAS:VOLT?''"
    by (simp add: cfg_command_def js_or_def no_fields_def)
  have d: "cfg_durationSec print_nat ?b = Fin 5"
    by (simp add: cfg_durationSec_def js_or_def no_fields_def)
  have x: "cfg_maxConsecutiveTimeouts ?b = 5" "cfg_perCmdTimeoutMs ?b = 3000" "cfg_minDelayMs ?b = 10"
    by (simp_all add: cfg_maxConsecutiveTimeouts_def cfg_perCmdTimeoutMs_def cfg_minDelayMs_def
        no_fields_def)
  have l: "throughput_loop (JStr ''MEAS:VOLT?'') (Fin 5000) 5 0 0 0
       [(0, answering [CHR ''1'', CHR ''.'', CHR ''0'', LF] 5),
        (20, answering [CHR ''1'', CHR ''.'', CHR ''0'', LF] 5), (5000, silent)] =
       Some (Inr (8, 2))"
    by (simp add: reply_10[simplified])
  show ?thesis
    by (simp add: throughput_mode_def c d x to_double_small l
        del: with_fields.simps throughput_loop.simps)
qed

theorem throughput_statistics_witness:
  "\<exists>rep.
     throughput_mode print_nat (with_fields [])
       \<lparr>calls = [], startTime = 0,
        ticks = [(0, answering (''1.0'' @ [LF]) 5), (20, answering (''1.0'' @ [LF]) 5),
                 (5000, silent)],
        endNow = 5125\<rparr> = Some (ThroughputReport rep) \<and>
     durationRequestedSec rep = Fin 5 \<and>
     durationMeasuredSec rep = of_int (5125 - 0) / 1000 \<and>
     mb_per_s rep = (of_nat (thr_total_bytes rep) / 1048576) / durationMeasuredSec rep \<and>
     thr_ops_per_sec rep = of_nat (queriesSent rep) / durationMeasuredSec rep \<and>
     thr_total_bytes rep = 8 \<and> queriesSent rep = 2"
proof -
  let ?env = "\<lparr>calls = [], startTime = 0,
        ticks = [(0, answering (''1.0'' @ [LF]) 5), (20, answering (''1.0'' @ [LF]) 5),
                 (5000, silent)],
        endNow = 5125\<rparr>"
  let ?rep = "\<lparr>thr_command = JStr ''MEAS:VOLT?'', durationRequestedSec = Fin 5,
            durationMeasuredSec = 5125 / 1000, thr_minDelayMs = 10,
            thr_perCmdTimeoutMs = 3000, thr_maxConsecutiveTimeouts = 5, queriesSent = 2,
            thr_total_bytes = 8, megabytes = 8 / 1048576,
            mb_per_s = (8 / 1048576) / (5125 / 1000), thr_ops_per_sec = 2 / (5125 / 1000),
            thr_note = throughput_note\<rparr>"
  have lt: "startTime ?env < endNow ?env" by simp
  from throughput_statistics[OF throughput_example lt] have
    t: "durationMeasuredSec ?rep = of_int (endNow ?env - startTime ?env) / 1000"
       "mb_per_s ?rep = (of_nat (thr_total_bytes ?rep) / 1048576) / durationMeasuredSec ?rep"
       "thr_ops_per_sec ?rep = of_nat (queriesSent ?rep) / durationMeasuredSec ?rep"
    by blast+
  have u: "durationMeasuredSec ?rep = of_int (5125 - 0) / 1000"
    using t(1) by simp
  have v: "durationRequestedSec ?rep = Fin 5" "thr_total_bytes ?rep = 8" "queriesSent ?rep = 2"
    by simp_all
  show ?thesis
    using throughput_example u t(2,3) v by (intro exI[of _ ?rep] conjI)
qed

section \<open>The options of the speed test\<close>

lemma minDelayMs_floor: "0 \<le> cfg_minDelayMs b"
  by (simp add: cfg_minDelayMs_def split: jsval.split jsnum.split)

lemma perCmdTimeoutMs_floor: "100 \<le> cfg_perCmdTimeoutMs b"
  by (simp add: cfg_perCmdTimeoutMs_def split: jsval.split jsnum.split)

lemma maxConsecutiveTimeouts_floor: "1 \<le> cfg_maxConsecutiveTimeouts b"
  by (simp add: cfg_maxConsecutiveTimeouts_def split: jsval.split jsnum.split)

lemma guarded_options:
  "0 \<le> cfg_minDelayMs b \<and> 100 \<le> cfg_perCmdTimeoutMs b \<and> 1 \<le> cfg_maxConsecutiveTimeouts b"
  by (intro conjI minDelayMs_floor perCmdTimeoutMs_floor maxConsecutiveTimeouts_floor)

lemma default_options:
  "cfg_minDelayMs no_fields = 10 \<and> cfg_perCmdTimeoutMs no_fields = 3000 \<and>
   cfg_maxConsecutiveTimeouts no_fields = 5 \<and> cfg_count print_nat no_fields = Fin 10 \<and>
   cfg_durationSec ns no_fields = Fin 5"
proof -
  have "dec 10 = ''10''"
    by (simp add: dec.simps[of 10] dec_digit char_of_eq_iff)
  then have p: "parseInt10 (print_nat 10) = Fin 10"
    using print_nat_digit[of 10]
    by (simp add: parseInt10_def ws1_def ws2_def ws3_def is_digit_def digits_val_def
        digit_val_def to_double_small)
  show ?thesis
    using p
    by (simp add: cfg_minDelayMs_def cfg_perCmdTimeoutMs_def cfg_maxConsecutiveTimeouts_def
        cfg_count_def cfg_durationSec_def js_or_def no_fields_def)
qed

lemma Math_max_floor: "Math_max (Fin 1) x = NaN \<or> \<not> js_lt (Math_max (Fin 1) x) (Fin 1)"
  by (cases x) simp_all

lemma count_floor_unless_NaN:
  "cfg_count ns b = NaN \<or> \<not> js_lt (cfg_count ns b) (Fin 1)"
  unfolding cfg_count_def by (rule Math_max_floor)

lemma duration_floor_unless_NaN:
  "cfg_durationSec ns b = NaN \<or> \<not> js_lt (cfg_durationSec ns b) (Fin 1)"
  unfolding cfg_durationSec_def by (rule Math_max_floor)

lemma parseInt10_abc: "parseInt10 ''abc'' = NaN"
  by (simp add: parseInt10_def ws1_def ws2_def ws3_def is_digit_def)

lemma Number_abc: "StringToNumber ''abc'' = NaN"
  by (simp add: StringToNumber_def trim_def trimEnd_def ws1_def ws2_def ws3_def
      NonDecimalIntegerLiteral_def StrDecimalLiteral_def StrUnsignedDecimalLiteral_def
      is_digit_def ExponentPart_opt_def)

lemma rtt_loop_NaN: "rtt_loop command NaN maxC i ct res envs = Some (Inr res)"
  by (cases envs) simp_all

lemma throughput_loop_NaN:
  "throughput_loop command NaN maxC tb q ct (t # tr) = Some (Inr (tb, q))"
  by (cases t) simp

text \<open>
  C8 fails for \<open>count\<close> and \<open>durationSec\<close>. The three options guarded by
  \<open>Number.isFinite\<close> are defaulted and floored for every body (\<open>guarded_options\<close>,
  \<open>default_options\<close>), but \<open>Math.max(1, parseInt(...))\<close> and \<open>Math.max(1, Number(...))\<close> are
  \<open>NaN\<close> as soon as the conversion is: the body \<open>{"count": "abc"}\<close> gives the count
  \<open>NaN\<close>, which is not at least 1, and a latency run of no iteration at all, whatever
  the instrument does; the body \<open>{"duration": "abc"}\<close> gives the duration \<open>NaN\<close>.
\<close>

theorem count_and_duration_not_floored:
  "cfg_count ns (with_fields [(''count'', JStr ''abc'')]) = NaN \<and>
   cfg_durationSec ns (with_fields [(''duration'', JStr ''abc'')]) = NaN \<and>
   rtt_mode ns (with_fields [(''count'', JStr ''abc'')]) envs =
     Some (RttReport
       \<lparr>rtt_command = JStr ''MEAS:VOLT?'', countRequested = NaN, rtt_minDelayMs = 10,
        stats = \<lparr>avg_ms = None, min_ms = None, max_ms = None, ops_per_sec = None,
                 total_bytes = 0\<rparr>,
        results = []\<rparr>)"
proof -
  let ?b = "with_fields [(''count'', JStr ''abc'')]"
  have c: "cfg_count ns ?b = NaN"
    by (simp add: cfg_count_def js_or_def parseInt10_abc)
  have d: "cfg_durationSec ns (with_fields [(''duration'', JStr ''abc'')]) = NaN"
    by (simp add: cfg_durationSec_def js_or_def Number_abc)
  have x: "cfg_command ?b = JStr ''MEAS:VOLT?''" "cfg_minDelayMs ?b = 10"
    by (simp_all add: cfg_command_def js_or_def cfg_minDelayMs_def no_fields_def)
  have st: "rtt_statistics [] = \<lparr>avg_ms = None, min_ms = None, max_ms = None,
              ops_per_sec = None, total_bytes = 0\<rparr>"
    by (simp add: rtt_statistics_def successes_def)
  have "rtt_mode ns ?b envs =
     Some (RttReport
       \<lparr>rtt_command = JStr ''MEAS:VOLT?'', countRequested = NaN, rtt_minDelayMs = 10,
        stats = \<lparr>avg_ms = None, min_ms = None, max_ms = None, ops_per_sec = None,
                 total_bytes = 0\<rparr>,
        results = []\<rparr>)"
    unfolding rtt_mode_def Let_def c x rtt_loop_NaN option.case sum.case st by simp
  with c d show ?thesis by simp
qed

section \<open>Early abort of a speed test\<close>

lemma rtt_mode_aborts:
  assumes "rs \<noteq> []"
    "\<forall>m. 0 < m \<and> m < length rs \<longrightarrow>
         \<not> cfg_maxConsecutiveTimeouts b \<le> of_nat (consecutive 0 (take m rs))"
    "cfg_maxConsecutiveTimeouts b \<le> of_nat (consecutive 0 rs)"
    "resolve_with (cfg_command b) es rs"
    "\<forall>m < length rs. js_lt (Fin (of_nat m)) (cfg_count ns b)"
  shows "rtt_mode ns b (es @ more_calls) =
           Some (RttReport
             \<lparr>rtt_command = cfg_command b, countRequested = cfg_count ns b,
              rtt_minDelayMs = cfg_minDelayMs b,
              stats = rtt_statistics (entries 0 rs @ [Note (abort_note (consecutive 0 rs))]),
              results = entries 0 rs @ [Note (abort_note (consecutive 0 rs))]\<rparr>)"
proof -
  have "\<forall>m < length rs. js_lt (Fin (of_nat (0 + m))) (cfg_count ns b)"
    using assms(5) by simp
  from rtt_loop_aborts[OF assms(4) assms(1) this assms(2,3), of "[]" more_calls]
  have l: "rtt_loop (cfg_command b) (cfg_count ns b) (cfg_maxConsecutiveTimeouts b) 0 0 []
             (es @ more_calls) =
           Some (Inr (entries 0 rs @ [Note (abort_note (consecutive 0 rs))]))"
    by simp
  show ?thesis
    unfolding rtt_mode_def Let_def l option.case sum.case by simp
qed

lemma throughput_mode_aborts:
  assumes "rs \<noteq> []"
    "\<forall>m. 0 < m \<and> m < length rs \<longrightarrow>
         \<not> cfg_maxConsecutiveTimeouts b \<le> of_nat (consecutive 0 (take m rs))"
    "cfg_maxConsecutiveTimeouts b \<le> of_nat (consecutive 0 rs)"
    "resolve_with (cfg_command b) (map snd tr) rs"
    "ticks env = tr @ more_ticks"
    "\<forall>m < length rs.
        js_lt (Fin (of_int (fst (tr ! m))))
          (js_add (Fin (of_int (startTime env))) (js_scale (cfg_durationSec ns b) 1000))"
  shows "\<exists>rep. throughput_mode ns b env = Some (ThroughputReport rep) \<and>
           queriesSent rep = length rs \<and>
           thr_total_bytes rep = sum_list (map bytes rs) \<and>
           durationMeasuredSec rep =
             max (1 / 1000) (of_int (endNow env - startTime env) / 1000) \<and>
           megabytes rep = of_nat (sum_list (map bytes rs)) / (1024 * 1024) \<and>
           mb_per_s rep = megabytes rep / durationMeasuredSec rep \<and>
           thr_ops_per_sec rep = of_nat (length rs) / durationMeasuredSec rep"
proof -
  let ?endAt = "js_add (Fin (of_int (startTime env))) (js_scale (cfg_durationSec ns b) 1000)"
  from throughput_loop_aborts[OF assms(4) assms(1) assms(6) assms(2,3), of 0 0 more_ticks]
  have l: "throughput_loop (cfg_command b) ?endAt (cfg_maxConsecutiveTimeouts b) 0 0 0
             (ticks env) = Some (Inr (sum_list (map bytes rs), length rs))"
    using assms(5) by simp
  show ?thesis
    unfolding throughput_mode_def Let_def l option.case sum.case prod.case by simp
qed

text \<open>
  C4 (amended). In either mode the counter of consecutive timeouts is the number of
  timed-out results at the end of the results so far (it is zero after any other
  result), and as soon as it reaches \<open>maxConsecutiveTimeouts\<close> the run stops without a
  further command, whatever remains of \<open>count\<close>, of the time budget and of the
  environment. The latency mode then answers with the records of all iterations made,
  followed by the note "Aborted after N consecutive timeouts.", and the statistics of
  that sequence. The throughput mode, which keeps no sequence of iterations, answers
  with the number of queries made and their byte total, and the rates of these over
  the measured duration.
\<close>

theorem abort_on_consecutive_timeouts:
  assumes "rs \<noteq> []"
    "\<forall>m. 0 < m \<and> m < length rs \<longrightarrow> \<not> maxC \<le> of_nat (consecutive 0 (take m rs))"
    "maxC \<le> of_nat (consecutive 0 rs)"
  shows "consecutive 0 rs = length (takeWhile timeout (rev rs)) \<and>
         (resolve_with command es rs \<and> (\<forall>m < length rs. js_lt (Fin (of_nat m)) count) \<longrightarrow>
            rtt_loop command count maxC 0 0 [] (es @ more_calls) =
              Some (Inr (entries 0 rs @ [Note (abort_note (consecutive 0 rs))]))) \<and>
         (resolve_with command (map snd tr) rs \<and>
          (\<forall>m < length rs. js_lt (Fin (of_int (fst (tr ! m)))) endAt) \<longrightarrow>
            throughput_loop command endAt maxC 0 0 0 (tr @ more_ticks) =
              Some (Inr (sum_list (map bytes rs), length rs))) \<and>
         (cfg_maxConsecutiveTimeouts b = maxC \<and> resolve_with (cfg_command b) es rs \<and>
          (\<forall>m < length rs. js_lt (Fin (of_nat m)) (cfg_count ns b)) \<longrightarrow>
            rtt_mode ns b (es @ more_calls) =
              Some (RttReport
                \<lparr>rtt_command = cfg_command b, countRequested = cfg_count ns b,
                 rtt_minDelayMs = cfg_minDelayMs b,
                 stats = rtt_statistics (entries 0 rs @ [Note (abort_note (consecutive 0 rs))]),
                 results = entries 0 rs @ [Note (abort_note (consecutive 0 rs))]\<rparr>)) \<and>
         (cfg_maxConsecutiveTimeouts b = maxC \<and> resolve_with (cfg_command b) (map snd tr) rs \<and>
          ticks env = tr @ more_ticks \<and>
          (\<forall>m < length rs.
              js_lt (Fin (of_int (fst (tr ! m))))
                (js_add (Fin (of_int (startTime env))) (js_scale (cfg_durationSec ns b) 1000))) \<longrightarrow>
            (\<exists>rep. throughput_mode ns b env = Some (ThroughputReport rep) \<and>
               queriesSent rep = length rs \<and>
               thr_total_bytes rep = sum_list (map bytes rs) \<and>
               durationMeasuredSec rep =
                 max (1 / 1000) (of_int (endNow env - startTime env) / 1000) \<and>
               megabytes rep = of_nat (sum_list (map bytes rs)) / (1024 * 1024) \<and>
               mb_per_s rep = megabytes rep / durationMeasuredSec rep \<and>
               thr_ops_per_sec rep = of_nat (length rs) / durationMeasuredSec rep))"
proof (intro conjI impI)
  show "consecutive 0 rs = length (takeWhile timeout (rev rs))"
    by (rule consecutive_trailing)
next
  assume h: "resolve_with command es rs \<and> (\<forall>m < length rs. js_lt (Fin (of_nat m)) count)"
  then have "\<forall>m < length rs. js_lt (Fin (of_nat (0 + m))) count" by simp
  from rtt_loop_aborts[OF conjunct1[OF h] assms(1) this assms(2,3), of "[]" more_calls]
  show "rtt_loop command count maxC 0 0 [] (es @ more_calls) =
          Some (Inr (entries 0 rs @ [Note (abort_note (consecutive 0 rs))]))"
    by simp
next
  assume h: "resolve_with command (map snd tr) rs \<and>
             (\<forall>m < length rs. js_lt (Fin (of_int (fst (tr ! m)))) endAt)"
  from throughput_loop_aborts[OF conjunct1[OF h] assms(1) conjunct2[OF h] assms(2,3), of 0 0 more_ticks]
  show "throughput_loop command endAt maxC 0 0 0 (tr @ more_ticks) =
          Some (Inr (sum_list (map bytes rs), length rs))"
    by simp
next
  assume h: "cfg_maxConsecutiveTimeouts b = maxC \<and> resolve_with (cfg_command b) es rs \<and>
          (\<forall>m < length rs. js_lt (Fin (of_nat m)) (cfg_count ns b))"
  show "rtt_mode ns b (es @ more_calls) =
              Some (RttReport
                \<lparr>rtt_command = cfg_command b, countRequested = cfg_count ns b,
                 rtt_minDelayMs = cfg_minDelayMs b,
                 stats = rtt_statistics (entries 0 rs @ [Note (abort_note (consecutive 0 rs))]),
                 results = entries 0 rs @ [Note (abort_note (consecutive 0 rs))]\<rparr>)"
    using h assms by (intro rtt_mode_aborts) auto
next
  assume h: "cfg_maxConsecutiveTimeouts b = maxC \<and> resolve_with (cfg_command b) (map snd tr) rs \<and>
          ticks env = tr @ more_ticks \<and>
          (\<forall>m < length rs.
              js_lt (Fin (of_int (fst (tr ! m))))
                (js_add (Fin (of_int (startTime env))) (js_scale (cfg_durationSec ns b) 1000)))"
  show "\<exists>rep. throughput_mode ns b env = Some (ThroughputReport rep) \<and>
               queriesSent rep = length rs \<and>
               thr_total_bytes rep = sum_list (map bytes rs) \<and>
               durationMeasuredSec rep =
                 max (1 / 1000) (of_int (endNow env - startTime env) / 1000) \<and>
               megabytes rep = of_nat (sum_list (map bytes rs)) / (1024 * 1024) \<and>
               mb_per_s rep = megabytes rep / durationMeasuredSec rep \<and>
               thr_ops_per_sec rep = of_nat (length rs) / durationMeasuredSec rep"
    using h assms by (intro throughput_mode_aborts[where more_ticks = more_ticks]) auto
qed

lemma dec_10: "dec 10 = ''10''"
  by (simp add: dec.simps[of 10] dec_digit char_of_eq_iff)

lemma parseInt10_10: "parseInt10 ''10'' = Fin 10"
  by (simp add: parseInt10_def ws1_def ws2_def ws3_def is_digit_def digits_val_def
      digit_val_def to_double_small)

lemma cfg_count_default: "b ''count'' = JUndefined \<Longrightarrow> cfg_count print_nat b = Fin 10"
  using print_nat_digit[of 10] by (simp add: cfg_count_def js_or_def dec_10 parseInt10_10)

lemma cfg_durationSec_default: "b ''duration'' = JUndefined \<Longrightarrow> cfg_durationSec ns b = Fin 5"
  by (simp add: cfg_durationSec_def js_or_def)

theorem abort_on_consecutive_timeouts_witness:
  "rtt_mode print_nat
     (with_fields [(''perCmdTimeoutMs'', JNum (Fin 100)), (''maxConsecutiveTimeouts'', JNum (Fin 3))])
     [silent, silent, silent, silent, silent] =
   Some (RttReport
     \<lparr>rtt_command = JStr ''MEAS:VOLT?'', countRequested = Fin 10, rtt_minDelayMs = 10,
      stats = \<lparr>avg_ms = None, min_ms = None, max_ms = None, ops_per_sec = None,
               total_bytes = 0\<rparr>,
      results = [Iter 1 [] None 0 True None, Iter 2 [] None 0 True None,
                 Iter 3 [] None 0 True None,
                 Note ''Aborted after 3 consecutive timeouts.'']\<rparr>) \<and>
   (\<exists>rep.
      throughput_mode print_nat
        (with_fields [(''perCmdTimeoutMs'', JNum (Fin 100)),
                      (''maxConsecutiveTimeouts'', JNum (Fin 3))])
        \<lparr>calls = [], startTime = 0,
         ticks = [(0, silent), (110, silent), (220, silent), (330, silent)], endNow = 450\<rparr> =
        Some (ThroughputReport rep) \<and>
      queriesSent rep = 3 \<and> thr_total_bytes rep = 0 \<and>
      durationMeasuredSec rep = 450 / 1000 \<and> megabytes rep = 0 \<and> mb_per_s rep = 0 \<and>
      thr_ops_per_sec rep = 3 / (450 / 1000))"
proof -
  let ?b = "with_fields [(''perCmdTimeoutMs'', JNum (Fin 100)),
                         (''maxConsecutiveTimeouts'', JNum (Fin 3))]"
  let ?env = "\<lparr>calls = [], startTime = 0,
         ticks = [(0, silent), (110, silent), (220, silent), (330, silent)], endNow = 450\<rparr>"
  let ?T = "\<lparr>raw = [], rtt_ms = None, bytes = 0, timeout = True, error = None\<rparr>"
  let ?rs = "[?T, ?T, ?T]"
  have a: "?rs \<noteq> []" by simp
  have b: "\<forall>m. 0 < m \<and> m < length ?rs \<longrightarrow> \<not> (3::rat) \<le> of_nat (consecutive 0 (take m ?rs))"
  proof (intro allI impI)
    fix m :: nat assume "0 < m \<and> m < length ?rs"
    then have "m = 1 \<or> m = 2" by auto
    then show "\<not> (3::rat) \<le> of_nat (consecutive 0 (take m ?rs))"
      by (auto simp: numeral_2_eq_2)
  qed
  have c: "(3::rat) \<le> of_nat (consecutive 0 ?rs)" by simp
  have x: "cfg_maxConsecutiveTimeouts ?b = 3" "cfg_command ?b = JStr ''MEAS:VOLT?''"
    "cfg_minDelayMs ?b = 10"
    by (simp_all add: cfg_maxConsecutiveTimeouts_def cfg_command_def js_or_def cfg_minDelayMs_def
        no_fields_def)
  have n: "cfg_count print_nat ?b = Fin 10"
    by (rule cfg_count_default) (simp add: no_fields_def)
  have d: "cfg_durationSec print_nat ?b = Fin 5"
    by (rule cfg_durationSec_default) (simp add: no_fields_def)
  have e: "js_add (Fin (of_int (startTime ?env))) (js_scale (Fin 5) 1000) = Fin 5000"
    by (simp add: to_double_small)
  have r: "resolve_with (cfg_command ?b) [silent, silent, silent] ?rs"
    unfolding x by (simp add: resolve_with_def silent_result)
  have r': "resolve_with (cfg_command ?b)
              (map snd [(0 :: int, silent), (110, silent), (220, silent)]) ?rs"
    unfolding x by (simp add: resolve_with_def silent_result)
  have l: "\<forall>m < length ?rs. js_lt (Fin (of_nat m)) (cfg_count print_nat ?b)"
    unfolding n by (auto simp: less_Suc_eq)
  have l': "\<forall>m < length ?rs.
              js_lt (Fin (of_int (fst ([(0 :: int, silent), (110, silent), (220, silent)] ! m))))
                (js_add (Fin (of_int (startTime ?env))) (js_scale (cfg_durationSec print_nat ?b) 1000))"
    unfolding d e by (auto simp: less_Suc_eq)
  have k: "ticks ?env = [(0, silent), (110, silent), (220, silent)] @ [(330, silent)]"
    by simp
  note t = abort_on_consecutive_timeouts[OF a b c, where b = ?b and ns = print_nat
      and es = "[silent, silent, silent]" and more_calls = "[silent, silent]"
      and tr = "[(0, silent), (110, silent), (220, silent)]" and more_ticks = "[(330, silent)]"
      and env = ?env]
  have e1: "entries 0 ?rs @ [Note (abort_note (consecutive 0 ?rs))] =
              [Iter 1 [] None 0 True None, Iter 2 [] None 0 True None,
               Iter 3 [] None 0 True None, Note ''Aborted after 3 consecutive timeouts.'']"
    by (simp add: eval_nat_numeral mk_entry_def error_or_null_def abort_note_3)
  have st: "rtt_statistics [Iter 1 [] None 0 True None, Iter 2 [] None 0 True None,
               Iter 3 [] None 0 True None, Note ''Aborted after 3 consecutive timeouts.''] =
            \<lparr>avg_ms = None, min_ms = None, max_ms = None, ops_per_sec = None, total_bytes = 0\<rparr>"
    by (simp add: rtt_statistics_def successes_def Let_def)
  from t x(1) r l have
    "rtt_mode print_nat ?b ([silent, silent, silent] @ [silent, silent]) =
       Some (RttReport
                \<lparr>rtt_command = cfg_command ?b, countRequested = cfg_count print_nat ?b,
                 rtt_minDelayMs = cfg_minDelayMs ?b,
                 stats = rtt_statistics (entries 0 ?rs @ [Note (abort_note (consecutive 0 ?rs))]),
                 results = entries 0 ?rs @ [Note (abort_note (consecutive 0 ?rs))]\<rparr>)"
    by blast
  then have p: "rtt_mode print_nat ?b [silent, silent, silent, silent, silent] =
   Some (RttReport
     \<lparr>rtt_command = JStr ''MEAS:VOLT?'', countRequested = Fin 10, rtt_minDelayMs = 10,
      stats = \<lparr>avg_ms = None, min_ms = None, max_ms = None, ops_per_sec = None,
               total_bytes = 0\<rparr>,
      results = [Iter 1 [] None 0 True None, Iter 2 [] None 0 True None,
                 Iter 3 [] None 0 True None,
                 Note ''Aborted after 3 consecutive timeouts.'']\<rparr>)"
    by (simp only: e1 st x n append.simps)
  from t x(1) r' k l' obtain rep where
    q: "throughput_mode print_nat ?b ?env = Some (ThroughputReport rep)"
       "queriesSent rep = length ?rs" "thr_total_bytes rep = sum_list (map bytes ?rs)"
       "durationMeasuredSec rep = max (1 / 1000) (of_int (endNow ?env - startTime ?env) / 1000)"
       "megabytes rep = of_nat (sum_list (map bytes ?rs)) / (1024 * 1024)"
       "mb_per_s rep = megabytes rep / durationMeasuredSec rep"
       "thr_ops_per_sec rep = of_nat (length ?rs) / durationMeasuredSec rep"
    by blast
  have q4: "durationMeasuredSec rep = 450 / 1000" using q(4) by simp
  have q5: "megabytes rep = 0" using q(5) by simp
  have "queriesSent rep = 3 \<and> thr_total_bytes rep = 0 \<and>
      durationMeasuredSec rep = 450 / 1000 \<and> megabytes rep = 0 \<and> mb_per_s rep = 0 \<and>
      thr_ops_per_sec rep = 3 / (450 / 1000)"
    using q(2,3,6,7) q4 q5 by simp
  with q(1) p show ?thesis by blast
qed

text \<open>
  The statement of C4 fails for the throughput mode: three timeouts in a row with
  \<open>maxConsecutiveTimeouts = 3\<close> stop the run after 0.33 of the 5 seconds, and the whole
  answer is the record below. It has no sequence of iterations to hold a note or the
  iterations made, and its \<open>note\<close> is the text sent with every throughput answer.
\<close>

theorem abort_note_claim_counterexample:
  "speedtest_try print_nat
     (with_fields [(''mode'', JStr ''throughput''), (''perCmdTimeoutMs'', JNum (Fin 100)),
                   (''maxConsecutiveTimeouts'', JNum (Fin 3))])
     \<lparr>calls = [], startTime = 0,
      ticks = [(0, silent), (110, silent), (220, silent), (330, silent)], endNow = 450\<rparr> =
   Some (ThroughputReport
           \<lparr>thr_command = JStr ''MEAS:VOLT?'', durationRequestedSec = Fin 5,
            durationMeasuredSec = 9 / 20, thr_minDelayMs = 10, thr_perCmdTimeoutMs = 100,
            thr_maxConsecutiveTimeouts = 3, queriesSent = 3, thr_total_bytes = 0,
            megabytes = 0, mb_per_s = 0, thr_ops_per_sec = 20 / 3,
            thr_note = throughput_note\<rparr>)"
proof -
  let ?b = "with_fields [(''mode'', JStr ''throughput''), (''perCmdTimeoutMs'', JNum (Fin 100)),
                   (''maxConsecutiveTimeouts'', JNum (Fin 3))]"
  have m: "cfg_mode print_nat ?b = ''throughput''"
    by (simp add: cfg_mode_def js_or_def lower_throughput)
  have c: "cfg_command ?b = JStr ''MEAS:VOLT?''"
    by (simp add: cfg_command_def js_or_def no_fields_def)
  have d: "cfg_durationSec print_nat ?b = Fin 5"
    by (simp add: cfg_durationSec_def js_or_def no_fields_def)
  have x: "cfg_maxConsecutiveTimeouts ?b = 3" "cfg_perCmdTimeoutMs ?b = 100" "cfg_minDelayMs ?b = 10"
    by (simp_all add: cfg_maxConsecutiveTimeouts_def cfg_perCmdTimeoutMs_def cfg_minDelayMs_def
        no_fields_def)
  have l: "throughput_loop (JStr ''MEAS:VOLT?'') (Fin 5000) 3 0 0 0
       [(0, silent), (110, silent), (220, silent), (330, silent)] = Some (Inr (0, 3))"
    by (simp add: silent_result)
  show ?thesis
    by (simp add: speedtest_try_def m throughput_mode_def c d x to_double_small l
        del: with_fields.simps throughput_loop.simps)
qed

section \<open>Replies that are no numbers\<close>

lemma Number_empty: "StringToNumber [] = Fin 0"
  by (simp add: StringToNumber_def trim_Nil)

lemma trim_LF: "trim [LF] = []"
  by (simp add: trim_def trimEnd_def ws1_def LF_def)

lemma trim_padded: "trim ('' 1.5e1'' @ [CHR 0x0D, LF]) = ''1.5e1''"
  by (simp add: trim_def trimEnd_def ws1_def ws2_def ws3_def LF_def)

lemma trim_1e3: "trim ''1e3'' = ''1e3''"
  by (simp add: trim_def trimEnd_def ws1_def ws2_def ws3_def)

lemma trim_15e1: "trim ''1.5e1'' = ''1.5e1''"
  by (simp add: trim_def trimEnd_def ws1_def ws2_def ws3_def)

lemma trim_33V: "trim ''3.3V'' = ''3.3V''"
  by (simp add: trim_def trimEnd_def ws1_def ws2_def ws3_def)

lemma literal_1e3: "StrUnsignedDecimalLiteral ''1e3'' = Some 1000"
  by (simp add: StrUnsignedDecimalLiteral_def is_digit_def ExponentPart_opt_def
      SignedInteger_def digits_val_def digit_val_def)

lemma literal_15e1: "StrUnsignedDecimalLiteral ''1.5e1'' = Some 15"
  by (simp add: StrUnsignedDecimalLiteral_def is_digit_def ExponentPart_opt_def
      SignedInteger_def digits_val_def digit_val_def)

lemma literal_33V: "StrUnsignedDecimalLiteral ''3.3V'' = None"
  by (simp add: StrUnsignedDecimalLiteral_def is_digit_def ExponentPart_opt_def)

lemma Number_1e3: "StringToNumber ''1e3'' = Fin 1000"
  by (simp add: StringToNumber_def trim_1e3 NonDecimalIntegerLiteral_def StrDecimalLiteral_def
      literal_1e3 to_double_small)

lemma Number_15e1: "StringToNumber ''1.5e1'' = Fin 15"
  by (simp add: StringToNumber_def trim_15e1 NonDecimalIntegerLiteral_def StrDecimalLiteral_def
      literal_15e1 to_double_small)

lemma Number_33V: "StringToNumber ''3.3V'' = NaN"
  by (simp add: StringToNumber_def trim_33V NonDecimalIntegerLiteral_def StrDecimalLiteral_def
      literal_33V)

text \<open>
  C9 fails on a reply with no text. \<open>Number('')\<close> is 0, which is finite, so a blank line
  from the instrument is answered as the measurement 0 and not as the raw text; and
  since the routes read \<open>r.timeout\<close> but never \<open>r.error\<close>, a connection that closes before
  any byte has arrived is answered the same way, with status 200. Replies that carry
  text behave as the claim says: a decimal number with or without exponent and
  surrounding white space gives its value, any other text is returned unchanged.
\<close>

theorem blank_reply_measured_as_zero:
  "measure_volt idle_server (answering [LF] 5) =
     (idle_server,
      Some (Measurement \<lparr>m_type = ''volt'', m_raw = [], m_value = VNum 0,
                         m_rtt_ms = Some 5, m_bytes = 1\<rparr>)) \<and>
   measure_volt idle_server
     \<lparr>start = 0, write_throws = None, events = [WriteDone None 0, SockClose 5]\<rparr> =
     (idle_server,
      Some (Measurement \<lparr>m_type = ''volt'', m_raw = [], m_value = VNum 0,
                         m_rtt_ms = Some 5, m_bytes = 0\<rparr>)) \<and>
   measure_volt idle_server (answering ('' 1.5e1'' @ [CHR 0x0D, LF]) 5) =
     (idle_server,
      Some (Measurement \<lparr>m_type = ''volt'', m_raw = ''1.5e1'', m_value = VNum 15,
                         m_rtt_ms = Some 5, m_bytes = 8\<rparr>)) \<and>
   measured_value ''3.301'' = VNum (3301 / 1000) \<and> measured_value ''ERR'' = VStr ''ERR'' \<and>
   measured_value ''1e3'' = VNum 1000 \<and> measured_value ''3.3V'' = VStr ''3.3V''"
proof -
  have i: "\<not> not_connected idle_server" "\<not> tcpBusy idle_server"
    by (simp_all add: idle_server_def not_connected_def)
  have j: "idle_server\<lparr>tcpBusy := False\<rparr> = idle_server"
    by (simp add: idle_server_def)
  have a: "sendCommandOnceOnSocket (answering [LF] 5) (JStr ''MEAS:VOLT?'') =
             Resolved \<lparr>raw = [], rtt_ms = Some 5, bytes = 1, timeout = False, error = None\<rparr>"
    using answering_result[of "[LF]" 5 "''MEAS:VOLT?''"] by (simp add: trim_LF)
  have b: "sendCommandOnceOnSocket
             \<lparr>start = 0, write_throws = None, events = [WriteDone None 0, SockClose 5]\<rparr>
             (JStr ''MEAS:VOLT?'') =
           Resolved \<lparr>raw = [], rtt_ms = Some 5, bytes = 0, timeout = False,
                     error = Some ''socket closed''\<rparr>"
    using failure_result[of "\<lparr>start = 0, write_throws = None,
        events = [WriteDone None 0, SockClose 5]\<rparr>" "[WriteDone None 0]" "SockClose 5" "[]"
        "''socket closed''" "''MEAS:VOLT?''"]
    by (simp add: trim_Nil)
  have c: "sendCommandOnceOnSocket (answering ('' 1.5e1'' @ [CHR 0x0D, LF]) 5)
             (JStr ''MEAS:VOLT?'') =
           Resolved \<lparr>raw = ''1.5e1'', rtt_ms = Some 5, bytes = 8, timeout = False,
                     error = None\<rparr>"
    using answering_result[of "'' 1.5e1'' @ [CHR 0x0D, LF]" 5 "''MEAS:VOLT?''"]
    by (simp add: trim_padded[simplified])
  have 1: "measure_volt idle_server (answering [LF] 5) =
     (idle_server,
      Some (Measurement \<lparr>m_type = ''volt'', m_raw = [], m_value = VNum 0,
                         m_rtt_ms = Some 5, m_bytes = 1\<rparr>))"
    using measure_route_value[OF i a, of "''volt''"]
    by (simp add: measure_volt_def j Number_empty)
  have 2: "measure_volt idle_server
     \<lparr>start = 0, write_throws = None, events = [WriteDone None 0, SockClose 5]\<rparr> =
     (idle_server,
      Some (Measurement \<lparr>m_type = ''volt'', m_raw = [], m_value = VNum 0,
                         m_rtt_ms = Some 5, m_bytes = 0\<rparr>))"
    using measure_route_value[OF i b, of "''volt''"]
    by (simp add: measure_volt_def j Number_empty)
  have 3: "measure_volt idle_server (answering ('' 1.5e1'' @ [CHR 0x0D, LF]) 5) =
     (idle_server,
      Some (Measurement \<lparr>m_type = ''volt'', m_raw = ''1.5e1'', m_value = VNum 15,
                         m_rtt_ms = Some 5, m_bytes = 8\<rparr>))"
    using measure_route_value[OF i c, of "''volt''"]
    by (simp add: measure_volt_def j Number_15e1)
  have 4: "measured_value ''3.301'' = VNum (3301 / 1000)" "measured_value ''ERR'' = VStr ''ERR''"
    "measured_value ''1e3'' = VNum 1000" "measured_value ''3.3V'' = VStr ''3.3V''"
    by (simp_all add: measured_value_def Number_3301 Number_ERR Number_1e3 Number_33V)
  show ?thesis
    using 1 2 3 4 by (intro conjI)
qed

end
